theory Spec2Isabelle
  imports Main
begin

section \<open>Values, maps and the receiver\<close>

text \<open>
  A Go value of type \<open>interface{}\<close> as it reaches the builders of \<open>mysql.go\<close>.
  Only the dynamic types that the code tests with a type assertion are told apart;
  every other dynamic type behaves like \<open>VBool\<close> (no assertion accepts it).
  \<open>VExpr e args\<close> is a non-nil \<open>*expr\<close> as \<open>Expr\<close> returns it, \<open>VNilExpr\<close> a nil
  \<open>*expr\<close>.  Go's \<open>int\<close> is modelled by \<open>int\<close>: the code never does arithmetic on it.
\<close>

datatype val =
    VNil
  | VStr string
  | VInt int
  | VBool bool
  | VExpr string "val list"
  | VNilExpr
  | VSlice "val list"
  | VStrings "string list"
  | VX "(string \<times> val) list"
  | VXs "(string \<times> val) list list"

text \<open>
  \<open>type X map[string]interface{}\<close>.  A map is the list of its entries in the order in which
  the \<open>range\<close> loop of the call at hand visits them (Go leaves that order open, so every
  order is a possible run); a key is looked up with \<open>map_of\<close>.  Each map is ranged over at
  most once per call.  The keys of a Go map are distinct, so an entry list stands for a
  map when its keys are; no theorem below needs that as a hypothesis.
\<close>

type_synonym X = "(string \<times> val) list"

record MySQL =
  DB :: string
  Table :: string

datatype panic =
    TypeAssertion
  | NilPointer
  | NilMapWrite
  | NotInitialized string

text \<open>Sequencing of steps that may panic.\<close>

definition and_then :: "panic + 'a \<Rightarrow> ('a \<Rightarrow> panic + 'b) \<Rightarrow> panic + 'b" where
  "and_then r f = (case r of Inl p \<Rightarrow> Inl p | Inr a \<Rightarrow> f a)"

text \<open>The single-value type assertions \<open>v.(string)\<close>, \<open>v.(int)\<close>, \<open>v.([]string)\<close>,
  \<open>v.([]interface{})\<close>, \<open>v.(X)\<close> and \<open>v.([]X)\<close>: each panics on any other dynamic type.\<close>

definition as_string :: "val \<Rightarrow> panic + string" where
  "as_string v = (case v of VStr s \<Rightarrow> Inr s | _ \<Rightarrow> Inl TypeAssertion)"

definition as_int :: "val \<Rightarrow> panic + int" where
  "as_int v = (case v of VInt i \<Rightarrow> Inr i | _ \<Rightarrow> Inl TypeAssertion)"

definition as_strings :: "val \<Rightarrow> panic + string list" where
  "as_strings v = (case v of VStrings ss \<Rightarrow> Inr ss | _ \<Rightarrow> Inl TypeAssertion)"

definition as_slice :: "val \<Rightarrow> panic + val list" where
  "as_slice v = (case v of VSlice vs \<Rightarrow> Inr vs | _ \<Rightarrow> Inl TypeAssertion)"

definition as_X :: "val \<Rightarrow> panic + X" where
  "as_X v = (case v of VX x \<Rightarrow> Inr x | _ \<Rightarrow> Inl TypeAssertion)"

definition as_Xs :: "val \<Rightarrow> panic + X list" where
  "as_Xs v = (case v of VXs xs \<Rightarrow> Inr xs | _ \<Rightarrow> Inl TypeAssertion)"

section \<open>Formatting\<close>

text \<open>\<open>strings.Join(elems, sep)\<close>.\<close>

fun Join :: "string list \<Rightarrow> string \<Rightarrow> string" where
  "Join [] sep = []"
| "Join [x] sep = x"
| "Join (x # y # ys) sep = x @ sep @ Join (y # ys) sep"

text \<open>The verb \<open>%d\<close> of \<open>fmt.Sprintf\<close> on an \<open>int\<close>: decimal digits, with a minus sign
  for a negative number.\<close>

definition digit :: "nat \<Rightarrow> char" where
  "digit n = ''0123456789'' ! n"

function decimal :: "nat \<Rightarrow> string" where
  "decimal n = (if n < 10 then [digit n] else decimal (n div 10) @ [digit (n mod 10)])"
  by pat_completeness auto
termination
  by (relation "measure id") auto

declare decimal.simps [simp del]

definition fmt_d :: "int \<Rightarrow> string" where
  "fmt_d i = (if i < 0 then ''-'' @ decimal (nat (- i)) else decimal (nat i))"

section \<open>The world outside the package\<close>

text \<open>
  Calls that leave the package are recorded in program order: the logger, \<open>sqlx.In\<close>, and
  the database handle and transaction.  \<open>DbBegin\<close> and \<open>TxExec\<close> carry the error the call
  returned (\<open>None\<close> is Go's nil error).  Writes to standard output (\<open>fmt.Println\<close> in
  \<open>buildUpdate\<close> and in the update arm of \<open>DoTransactions\<close>) are not recorded.
\<close>

datatype event =
    LogError "string list"
  | SqlxIn string "val list"
  | DbExec string "val list"
  | DbGet string "val list"
  | DbSelect string "val list"
  | DbBegin "string option"
  | TxExec string "val list" "string option"
  | TxRollback
  | TxCommit

text \<open>
  What the package does not define is a parameter: the configuration reader
  \<open>GetEnvString\<close>, the registry \<open>dbmap\<close> (which handle names are registered), the first two
  results of \<open>sqlx.In\<close> (the code drops the third, the error), and the answers of the
  database.  An answer may depend on the calls made so far.  \<open>db_Exec\<close> answers with an
  error or with the values of \<open>LastInsertId\<close> and \<open>RowsAffected\<close>; \<open>db_Get\<close>
  answers with the value it stored in the destination, if it stored one, and the error.
  \<open>db_Select\<close> stores into a destination that the code never reads; only its error is kept.
\<close>

record world =
  GetEnvString :: "string \<Rightarrow> string \<Rightarrow> string \<Rightarrow> string"
  dbmap :: "string \<Rightarrow> bool"
  sqlx_In :: "string \<Rightarrow> val list \<Rightarrow> string \<times> val list"
  db_Exec :: "event list \<Rightarrow> string \<Rightarrow> val list \<Rightarrow> string + (int \<times> int)"
  db_Get :: "event list \<Rightarrow> string \<Rightarrow> val list \<Rightarrow> val option \<times> string option"
  db_Select :: "event list \<Rightarrow> string \<Rightarrow> val list \<Rightarrow> string option"
  db_Begin :: "string option"
  tx_Exec :: "event list \<Rightarrow> string \<Rightarrow> val list \<Rightarrow> string option"

definition dbname :: "MySQL \<Rightarrow> string" where
  "dbname m = (if DB m = [] then ''db'' else DB m)"

definition getDB :: "world \<Rightarrow> MySQL \<Rightarrow> event list \<times> (panic + unit)" where
  "getDB w m =
     (if dbmap w (dbname m) then ([], Inr ())
      else ([LogError [''[MySQL] Database Error: '' @ DB m @ '' is not initialized'']],
            Inl (NotInitialized (DB m))))"

definition getPrefix :: "world \<Rightarrow> MySQL \<Rightarrow> string" where
  "getPrefix w m = GetEnvString w (dbname m) ''prefix'' []"

section \<open>Statement builders\<close>

text \<open>\<open>tables[0]\<close> after \<open>if len(tables) == 0 { tables = append(tables, m.Table) }\<close>.\<close>

definition table0 :: "MySQL \<Rightarrow> string list \<Rightarrow> string" where
  "table0 m tables = (case tables of [] \<Rightarrow> Table m | t # _ \<Rightarrow> t)"

fun insert_loop :: "X \<Rightarrow> string list \<Rightarrow> string list \<Rightarrow> val list \<Rightarrow>
    string list \<times> string list \<times> val list" where
  "insert_loop [] columns placeholders binds = (columns, placeholders, binds)"
| "insert_loop ((k, v) # data) columns placeholders binds =
     insert_loop data (columns @ [k]) (placeholders @ [''?'']) (binds @ [v])"

definition buildInsert :: "world \<Rightarrow> MySQL \<Rightarrow> X \<Rightarrow> string list \<Rightarrow> string \<times> val list" where
  "buildInsert w m data tables =
     (case insert_loop data [] [] [] of (columns, placeholders, binds) \<Rightarrow>
        (''INSERT INTO '' @ getPrefix w m @ table0 m tables @ '' ('' @ Join columns '','' @
           '') VALUES ('' @ Join placeholders '','' @ '')'',
         binds))"

text \<open>\<open>v[column]\<close> on a row: the stored value, or the nil interface when the key is
  missing.\<close>

definition index_X :: "X \<Rightarrow> string \<Rightarrow> val" where
  "index_X v column = (case map_of v column of Some a \<Rightarrow> a | None \<Rightarrow> VNil)"

fun column_loop :: "X \<Rightarrow> string list \<Rightarrow> val list \<Rightarrow> string list \<Rightarrow> val list \<times> string list" where
  "column_loop v [] binds bindvars = (binds, bindvars)"
| "column_loop v (column # columns) binds bindvars =
     column_loop v columns (binds @ [index_X v column]) (bindvars @ [''?''])"

fun row_loop :: "string list \<Rightarrow> X list \<Rightarrow> string list \<Rightarrow> val list \<Rightarrow> string list \<times> val list" where
  "row_loop columns [] placeholders binds = (placeholders, binds)"
| "row_loop columns (v # data) placeholders binds =
     (case column_loop v columns binds [] of (binds', bindvars) \<Rightarrow>
        row_loop columns data (placeholders @ [''('' @ Join bindvars '','' @ '')'']) binds')"

definition buildBatchInsert ::
    "world \<Rightarrow> MySQL \<Rightarrow> string list \<Rightarrow> X list \<Rightarrow> string list \<Rightarrow> string \<times> val list" where
  "buildBatchInsert w m columns data tables =
     (case row_loop columns data [] [] of (placeholders, binds) \<Rightarrow>
        (''INSERT INTO '' @ getPrefix w m @ table0 m tables @ '' ('' @ Join columns '','' @
           '') VALUES '' @ Join placeholders '','',
         binds))"

text \<open>The \<open>if v, ok := query[key]; ok\<close> steps shared by the three condition-map builders.\<close>

definition query_table :: "MySQL \<Rightarrow> X \<Rightarrow> panic + string" where
  "query_table m query =
     (case map_of query ''table'' of Some v \<Rightarrow> as_string v | None \<Rightarrow> Inr (Table m))"

definition string_clause :: "X \<Rightarrow> string \<Rightarrow> string \<Rightarrow> string list \<Rightarrow> panic + string list" where
  "string_clause query key kw clauses =
     (case map_of query key of
        Some v \<Rightarrow> and_then (as_string v) (\<lambda>s. Inr (clauses @ [kw @ s]))
      | None \<Rightarrow> Inr clauses)"

definition int_clause :: "X \<Rightarrow> string \<Rightarrow> string \<Rightarrow> string list \<Rightarrow> panic + string list" where
  "int_clause query key kw clauses =
     (case map_of query key of
        Some v \<Rightarrow> and_then (as_int v) (\<lambda>i. Inr (clauses @ [kw @ fmt_d i]))
      | None \<Rightarrow> Inr clauses)"

definition query_binds :: "X \<Rightarrow> val list \<Rightarrow> panic + val list" where
  "query_binds query binds =
     (case map_of query ''binds'' of
        Some v \<Rightarrow> and_then (as_slice v) (\<lambda>vs. Inr (binds @ vs))
      | None \<Rightarrow> Inr binds)"

fun set_loop :: "X \<Rightarrow> string list \<Rightarrow> val list \<Rightarrow> panic + (string list \<times> val list)" where
  "set_loop [] sets binds = Inr (sets, binds)"
| "set_loop ((k, v) # data) sets binds =
     (case v of
        VExpr e args \<Rightarrow> set_loop data (sets @ [k @ '' = '' @ e]) (binds @ args)
      | VNilExpr \<Rightarrow> Inl NilPointer
      | _ \<Rightarrow> set_loop data (sets @ [k @ '' = ?'']) (binds @ [v]))"

definition buildUpdate :: "world \<Rightarrow> MySQL \<Rightarrow> X \<Rightarrow> X \<Rightarrow> panic + (string \<times> val list)" where
  "buildUpdate w m query data =
     and_then (query_table m query) (\<lambda>table.
     and_then (set_loop data [] []) (\<lambda>(sets, binds).
     and_then (string_clause query ''where'' ''WHERE ''
                 [''UPDATE '' @ getPrefix w m @ table, ''SET '' @ Join sets '','']) (\<lambda>clauses.
     and_then (query_binds query binds) (\<lambda>binds.
     Inr (Join clauses '' '', binds)))))"

definition select_clause :: "X \<Rightarrow> panic + string list" where
  "select_clause query =
     (case map_of query ''select'' of
        Some v \<Rightarrow> and_then (as_string v) (\<lambda>s. Inr [''SELECT '' @ s])
      | None \<Rightarrow> Inr [''SELECT *''])"

definition from_clause :: "X \<Rightarrow> string \<Rightarrow> string \<Rightarrow> string list \<Rightarrow> panic + string list" where
  "from_clause query prefix table clauses =
     (case map_of query ''join'' of
        Some v \<Rightarrow> and_then (as_strings v)
                   (\<lambda>joins. Inr ((clauses @ [''FROM '' @ prefix @ table @ '' AS a'']) @ joins))
      | None \<Rightarrow> Inr (clauses @ [''FROM '' @ prefix @ table]))"

definition buildQuery :: "world \<Rightarrow> MySQL \<Rightarrow> X \<Rightarrow> panic + (string \<times> val list)" where
  "buildQuery w m query =
     and_then (select_clause query) (\<lambda>clauses.
     and_then (query_table m query) (\<lambda>table.
     and_then (from_clause query (getPrefix w m) table clauses) (\<lambda>clauses.
     and_then (string_clause query ''where'' ''WHERE '' clauses) (\<lambda>clauses.
     and_then (string_clause query ''group'' ''GROUP BY '' clauses) (\<lambda>clauses.
     and_then (string_clause query ''order'' ''ORDER BY '' clauses) (\<lambda>clauses.
     and_then (int_clause query ''offset'' ''OFFSET '' clauses) (\<lambda>clauses.
     and_then (int_clause query ''limit'' ''LIMIT '' clauses) (\<lambda>clauses.
     and_then (query_binds query []) (\<lambda>binds.
     Inr (Join clauses '' '', binds))))))))))"

definition buildDelete :: "world \<Rightarrow> MySQL \<Rightarrow> X \<Rightarrow> panic + (string \<times> val list)" where
  "buildDelete w m query =
     and_then (query_table m query) (\<lambda>table.
     and_then (string_clause query ''where'' ''WHERE ''
                 [''DELETE FROM '' @ getPrefix w m @ table]) (\<lambda>clauses.
     and_then (query_binds query []) (\<lambda>binds.
     Inr (Join clauses '' '', binds))))"

section \<open>Single statements\<close>

text \<open>
  Every operation returns the calls it made and either the panic that ended it or what it
  returned; \<open>Insert\<close>, \<open>BatchInsert\<close>, \<open>Update\<close> and \<open>Delete\<close> return the pair of the
  integer and the error.
\<close>

definition no_rows :: string where
  "no_rows = ''sql: no rows in result set''"

definition Insert :: "world \<Rightarrow> MySQL \<Rightarrow> X \<Rightarrow> event list \<times> (panic + int \<times> string option)" where
  "Insert w m data =
     (case getDB w m of
        (tr, Inl p) \<Rightarrow> (tr, Inl p)
      | (tr, Inr _) \<Rightarrow>
          (case buildInsert w m data [] of (sql, binds) \<Rightarrow>
             (case db_Exec w tr sql binds of
                Inl e \<Rightarrow> (tr @ [DbExec sql binds, LogError [''[MySQL] Insert Error: '', e]],
                          Inr (0, Some e))
              | Inr (last_id, rows) \<Rightarrow> (tr @ [DbExec sql binds], Inr (last_id, None)))))"

definition BatchInsert ::
    "world \<Rightarrow> MySQL \<Rightarrow> string list \<Rightarrow> X list \<Rightarrow> event list \<times> (panic + int \<times> string option)" where
  "BatchInsert w m columns data =
     (case getDB w m of
        (tr, Inl p) \<Rightarrow> (tr, Inl p)
      | (tr, Inr _) \<Rightarrow>
          (case buildBatchInsert w m columns data [] of (sql, binds) \<Rightarrow>
             (case db_Exec w tr sql binds of
                Inl e \<Rightarrow> (tr @ [DbExec sql binds, LogError [''[MySQL] BatchInsert Error: '', e]],
                          Inr (0, Some e))
              | Inr (last_id, rows) \<Rightarrow> (tr @ [DbExec sql binds], Inr (rows, None)))))"

text \<open>\<open>_sql, args, _ := sqlx.In(sql, binds...)\<close> followed by \<open>db.Exec(_sql, args...)\<close> and
  \<open>result.RowsAffected()\<close>, as \<open>Update\<close> and \<open>Delete\<close> have it; \<open>tag\<close> is the prefix of
  the log message.\<close>

definition exec_In ::
    "world \<Rightarrow> event list \<Rightarrow> string \<Rightarrow> string \<Rightarrow> val list \<Rightarrow>
     event list \<times> (panic + int \<times> string option)" where
  "exec_In w tr tag sql binds =
     (case sqlx_In w sql binds of (sql', args) \<Rightarrow>
        (case db_Exec w (tr @ [SqlxIn sql binds]) sql' args of
           Inl e \<Rightarrow> (tr @ [SqlxIn sql binds, DbExec sql' args, LogError [tag, e]], Inr (0, Some e))
         | Inr (last_id, rows) \<Rightarrow> (tr @ [SqlxIn sql binds, DbExec sql' args], Inr (rows, None))))"

definition Update :: "world \<Rightarrow> MySQL \<Rightarrow> X \<Rightarrow> X \<Rightarrow> event list \<times> (panic + int \<times> string option)" where
  "Update w m query data =
     (case getDB w m of
        (tr, Inl p) \<Rightarrow> (tr, Inl p)
      | (tr, Inr _) \<Rightarrow>
          (case buildUpdate w m query data of
             Inl p \<Rightarrow> (tr, Inl p)
           | Inr (sql, binds) \<Rightarrow> exec_In w tr ''[MySQL] Update Error: '' sql binds))"

definition Delete :: "world \<Rightarrow> MySQL \<Rightarrow> X \<Rightarrow> event list \<times> (panic + int \<times> string option)" where
  "Delete w m query =
     (case getDB w m of
        (tr, Inl p) \<Rightarrow> (tr, Inl p)
      | (tr, Inr _) \<Rightarrow>
          (case buildDelete w m query of
             Inl p \<Rightarrow> (tr, Inl p)
           | Inr (sql, binds) \<Rightarrow> exec_In w tr ''[MySQL] Delete Error: '' sql binds))"

text \<open>\<open>query[k] = v\<close> on an allocated map: the entry is replaced, or added when the key is
  new.\<close>

fun assign :: "string \<Rightarrow> val \<Rightarrow> X \<Rightarrow> X" where
  "assign k v [] = [(k, v)]"
| "assign k v ((k', v') # q) = (if k' = k then (k, v) # q else (k', v') # assign k v q)"

text \<open>
  \<open>Count\<close> and \<open>FindOne\<close> write to the caller's map, so their \<open>query\<close> is \<open>None\<close> for Go's
  nil map (an assignment to it panics) and \<open>Some q\<close> for an allocated one, and the map as
  the call leaves it is part of the result.  The destination \<open>data *int\<close> of \<open>Count\<close> is
  \<open>None\<close> for a nil pointer and \<open>Some n\<close> for a pointer to a variable holding \<open>n\<close>; the
  result has the variable's final value.  The local \<open>count\<close> is 0 unless \<open>db.Get\<close> stored
  an integer in it.
\<close>

definition count_select :: "string list \<Rightarrow> string" where
  "count_select columns =
     (case columns of c # _ \<Rightarrow> ''COUNT('' @ c @ '')'' | [] \<Rightarrow> ''COUNT(*)'')"

definition Count ::
    "world \<Rightarrow> MySQL \<Rightarrow> X option \<Rightarrow> int option \<Rightarrow> string list \<Rightarrow>
     event list \<times> X option \<times> int option \<times> (panic + string option)" where
  "Count w m query data columns =
     (case getDB w m of
        (tr, Inl p) \<Rightarrow> (tr, query, data, Inl p)
      | (tr, Inr _) \<Rightarrow>
          (case query of
             None \<Rightarrow> (tr, query, data, Inl NilMapWrite)
           | Some q \<Rightarrow>
               (let q' = assign ''select'' (VStr (count_select columns)) q in
                case buildQuery w m q' of
                  Inl p \<Rightarrow> (tr, Some q', data, Inl p)
                | Inr (sql, binds) \<Rightarrow>
                    (case sqlx_In w sql binds of (sql', args) \<Rightarrow>
                       (case db_Get w (tr @ [SqlxIn sql binds]) sql' args of (stored, err) \<Rightarrow>
                          (let count = (case stored of Some (VInt n) \<Rightarrow> n | _ \<Rightarrow> 0);
                               tr' = tr @ [SqlxIn sql binds, DbGet sql' args]
                           in case data of
                                None \<Rightarrow> (tr', Some q', None, Inl NilPointer)
                              | Some _ \<Rightarrow> (tr', Some q', Some count, Inr err)))))))"

text \<open>The error handling shared by \<open>FindOne\<close>, \<open>Find\<close> and \<open>FindAll\<close>: every message but
  "no rows" is logged, and the error is returned.\<close>

definition log_unless_no_rows :: "string \<Rightarrow> string option \<Rightarrow> event list" where
  "log_unless_no_rows tag err =
     (case err of
        Some msg \<Rightarrow> (if msg \<noteq> no_rows then [LogError [tag, msg]] else [])
      | None \<Rightarrow> [])"

definition FindOne ::
    "world \<Rightarrow> MySQL \<Rightarrow> X option \<Rightarrow> event list \<times> X option \<times> (panic + string option)" where
  "FindOne w m query =
     (case getDB w m of
        (tr, Inl p) \<Rightarrow> (tr, query, Inl p)
      | (tr, Inr _) \<Rightarrow>
          (case query of
             None \<Rightarrow> (tr, query, Inl NilMapWrite)
           | Some q \<Rightarrow>
               (let q' = assign ''limit'' (VInt 1) q in
                case buildQuery w m q' of
                  Inl p \<Rightarrow> (tr, Some q', Inl p)
                | Inr (sql, binds) \<Rightarrow>
                    (case sqlx_In w sql binds of (sql', args) \<Rightarrow>
                       (case db_Get w (tr @ [SqlxIn sql binds]) sql' args of (stored, err) \<Rightarrow>
                          (tr @ [SqlxIn sql binds, DbGet sql' args] @
                             log_unless_no_rows ''[MySQL] FindOne Error: '' err,
                           Some q', Inr err))))))"

definition Find :: "world \<Rightarrow> MySQL \<Rightarrow> X \<Rightarrow> event list \<times> (panic + string option)" where
  "Find w m query =
     (case getDB w m of
        (tr, Inl p) \<Rightarrow> (tr, Inl p)
      | (tr, Inr _) \<Rightarrow>
          (case buildQuery w m query of
             Inl p \<Rightarrow> (tr, Inl p)
           | Inr (sql, binds) \<Rightarrow>
               (case sqlx_In w sql binds of (sql', args) \<Rightarrow>
                  (let err = db_Select w (tr @ [SqlxIn sql binds]) sql' args in
                   (tr @ [SqlxIn sql binds, DbSelect sql' args] @
                      log_unless_no_rows ''[MySQL] Find Error: '' err,
                    Inr err)))))"

text \<open>The map that \<open>FindAll\<close> makes: \<open>query := X{}\<close>, with \<open>select\<close> set to the joined
  columns when there are any.\<close>

definition FindAll_query :: "string list \<Rightarrow> X" where
  "FindAll_query columns =
     (if length columns > 0 then assign ''select'' (VStr (Join columns '','')) [] else [])"

definition FindAll :: "world \<Rightarrow> MySQL \<Rightarrow> string list \<Rightarrow> event list \<times> (panic + string option)" where
  "FindAll w m columns =
     (case getDB w m of
        (tr, Inl p) \<Rightarrow> (tr, Inl p)
      | (tr, Inr _) \<Rightarrow>
          (case buildQuery w m (FindAll_query columns) of
             Inl p \<Rightarrow> (tr, Inl p)
           | Inr (sql, binds) \<Rightarrow>
               (let err = db_Select w tr sql binds in
                (tr @ [DbSelect sql binds] @ log_unless_no_rows ''[MySQL] FindAll Error: '' err,
                 Inr err))))"

section \<open>Transactions\<close>

text \<open>The statements of the four arms of the \<open>switch\<close>, from the payload \<open>opt\<close>.\<close>

definition opt_table :: "X \<Rightarrow> panic + string list" where
  "opt_table opt =
     (case map_of opt ''table'' of
        Some v \<Rightarrow> and_then (as_string v) (\<lambda>s. Inr ([] @ [s]))
      | None \<Rightarrow> Inr [])"

definition opt_X :: "X \<Rightarrow> string \<Rightarrow> panic + X" where
  "opt_X opt key = (case map_of opt key of Some v \<Rightarrow> as_X v | None \<Rightarrow> Inr [])"

definition insert_arm :: "world \<Rightarrow> MySQL \<Rightarrow> X \<Rightarrow> panic + (string \<times> val list)" where
  "insert_arm w m opt =
     and_then (opt_table opt) (\<lambda>table.
     and_then (opt_X opt ''data'') (\<lambda>data.
     Inr (buildInsert w m data table)))"

definition batchInsert_arm :: "world \<Rightarrow> MySQL \<Rightarrow> X \<Rightarrow> panic + (string \<times> val list)" where
  "batchInsert_arm w m opt =
     and_then (opt_table opt) (\<lambda>table.
     and_then (case map_of opt ''columns'' of Some v \<Rightarrow> as_strings v | None \<Rightarrow> Inr []) (\<lambda>columns.
     and_then (case map_of opt ''data'' of Some v \<Rightarrow> as_Xs v | None \<Rightarrow> Inr []) (\<lambda>data.
     Inr (buildBatchInsert w m columns data table))))"

definition update_arm :: "world \<Rightarrow> MySQL \<Rightarrow> X \<Rightarrow> panic + (string \<times> val list)" where
  "update_arm w m opt =
     and_then (opt_X opt ''query'') (\<lambda>query.
     and_then (opt_X opt ''data'') (\<lambda>data.
     buildUpdate w m query data))"

text \<open>\<open>_, err = tx.Exec(sql, binds...)\<close>, and the same after \<open>sqlx.In\<close>.\<close>

definition tx_exec ::
    "world \<Rightarrow> event list \<Rightarrow> panic + (string \<times> val list) \<Rightarrow> event list \<times> (panic + string option)" where
  "tx_exec w tr built =
     (case built of
        Inl p \<Rightarrow> (tr, Inl p)
      | Inr (sql, binds) \<Rightarrow>
          (let err = tx_Exec w tr sql binds in (tr @ [TxExec sql binds err], Inr err)))"

definition tx_exec_In ::
    "world \<Rightarrow> event list \<Rightarrow> panic + (string \<times> val list) \<Rightarrow> event list \<times> (panic + string option)" where
  "tx_exec_In w tr built =
     (case built of
        Inl p \<Rightarrow> (tr, Inl p)
      | Inr (sql, binds) \<Rightarrow>
          (case sqlx_In w sql binds of (sql', args) \<Rightarrow>
             (let err = tx_Exec w (tr @ [SqlxIn sql binds]) sql' args in
              (tr @ [SqlxIn sql binds, TxExec sql' args err], Inr err))))"

text \<open>
  One round of the loop up to the closing \<open>if err != nil { break }\<close>: the calls made so far
  and the variable \<open>err\<close> go in, and come out updated.  A \<open>break\<close> inside an arm only leaves
  the \<open>switch\<close>.
\<close>

definition tx_entry ::
    "world \<Rightarrow> MySQL \<Rightarrow> event list \<Rightarrow> string option \<Rightarrow> string \<times> val \<Rightarrow>
     event list \<times> (panic + string option)" where
  "tx_entry w m tr err kv =
     (case kv of (key, value) \<Rightarrow>
        (case as_X value of
           Inl p \<Rightarrow> (tr, Inl p)
         | Inr opt \<Rightarrow>
             (if key = ''insert'' then tx_exec w tr (insert_arm w m opt)
              else if key = ''batchInsert'' then tx_exec w tr (batchInsert_arm w m opt)
              else if key = ''update'' then tx_exec_In w tr (update_arm w m opt)
              else if key = ''delete'' then tx_exec_In w tr (buildDelete w m opt)
              else (tr, Inr err))))"

fun tx_loop ::
    "world \<Rightarrow> MySQL \<Rightarrow> event list \<Rightarrow> string option \<Rightarrow> X \<Rightarrow> event list \<times> (panic + string option)" where
  "tx_loop w m tr err [] = (tr, Inr err)"
| "tx_loop w m tr err (kv # operations) =
     (case tx_entry w m tr err kv of
        (tr', Inl p) \<Rightarrow> (tr', Inl p)
      | (tr', Inr err') \<Rightarrow>
          (if err' \<noteq> None then (tr', Inr err') else tx_loop w m tr' err' operations))"

definition DoTransactions :: "world \<Rightarrow> MySQL \<Rightarrow> X \<Rightarrow> event list \<times> (panic + string option)" where
  "DoTransactions w m operations =
     (case getDB w m of
        (tr, Inl p) \<Rightarrow> (tr, Inl p)
      | (tr, Inr _) \<Rightarrow>
          (case db_Begin w of
             Some e \<Rightarrow>
               (tr @ [DbBegin (Some e), LogError [''[MySQL] DoTransactions Error: '', e]],
                Inr (Some e))
           | None \<Rightarrow>
               (case tx_loop w m (tr @ [DbBegin None]) None operations of
                  (tr', Inl p) \<Rightarrow> (tr', Inl p)
                | (tr', Inr (Some e)) \<Rightarrow>
                    (tr' @ [TxRollback, LogError [''[MySQL] DoTransactions Error: '', e]],
                     Inr (Some e))
                | (tr', Inr None) \<Rightarrow> (tr' @ [TxCommit], Inr None))))"

section \<open>A world to run the operations in\<close>

text \<open>
  Modelled from the spec: the Placeholder Expander of its section 4.2, which the code takes
  from the library \<open>sqlx\<close> (\<open>sqlx.In\<close>, not among the sources).  A \<open>?\<close> whose bind value is
  a sequence of \<open>N\<close> values becomes \<open>(?,...,?)\<close> with \<open>N\<close> placeholders and the sequence is
  flattened at that position; every other \<open>?\<close> and bind pass through unchanged.  It is
  used as the expander of the example world only: the operations take the expander as a
  parameter.
\<close>

fun expand_In :: "string \<Rightarrow> val list \<Rightarrow> string \<times> val list" where
  "expand_In [] args = ([], [])"
| "expand_In (c # sql) [] = (c # sql, [])"
| "expand_In (c # sql) (a # args) =
     (if c = CHR ''?'' then
        (case a of
           VSlice vs \<Rightarrow>
             (case expand_In sql args of (sql', args') \<Rightarrow>
                (''('' @ Join (replicate (length vs) ''?'') '','' @ '')'' @ sql', vs @ args'))
         | _ \<Rightarrow> (case expand_In sql args of (sql', args') \<Rightarrow> (c # sql', a # args')))
      else (case expand_In sql (a # args) of (sql', args') \<Rightarrow> (c # sql', args')))"

text \<open>
  One registered handle \<open>db\<close> with table prefix \<open>yii_\<close>, the expander above, a database
  whose single statements succeed but whose \<open>Get\<close> cannot connect, and a transaction in
  which every \<open>DELETE\<close> fails.
\<close>

definition example_world :: world where
  "example_world =
     \<lparr>GetEnvString = (\<lambda>section key dflt. if key = ''prefix'' then ''yii_'' else dflt),
      dbmap = (\<lambda>name. name = ''db''),
      sqlx_In = expand_In,
      db_Exec = (\<lambda>tr sql binds. Inr (7, 1)),
      db_Get = (\<lambda>tr sql binds. (None, Some ''dial tcp: connection refused'')),
      db_Select = (\<lambda>tr sql binds. None),
      db_Begin = None,
      tx_Exec = (\<lambda>tr sql binds. if take 6 sql = ''DELETE'' then Some ''Error 1146'' else None)\<rparr>"

definition example_m :: MySQL where
  "example_m = \<lparr>DB = [], Table = ''user''\<rparr>"

definition example_query :: X where
  "example_query =
     [(''select'', VStr ''a.id, b.name''), (''table'', VStr ''order''),
      (''join'', VStrings [''LEFT JOIN yii_user AS b ON a.uid = b.id'']),
      (''where'', VStr ''a.id > ?''), (''group'', VStr ''a.uid''), (''order'', VStr ''a.id DESC''),
      (''offset'', VInt 20), (''limit'', VInt 10), (''binds'', VSlice [VInt 5])]"

definition example_data :: X where
  "example_data = [(''price'', VExpr ''price * ? + ?'' [VInt 2, VInt 100]), (''name'', VStr ''x'')]"

definition example_condition :: X where
  "example_condition = [(''where'', VStr ''id IN ?''), (''binds'', VSlice [VSlice [VInt 1, VInt 2]])]"

definition example_count_query :: X where
  "example_count_query =
     [(''select'', VStr ''name''), (''where'', VStr ''id > ?''), (''limit'', VInt 50),
      (''binds'', VSlice [VInt 3])]"

section \<open>The spec's vocabulary\<close>

text \<open>
  What a condition map holds under a key when the value has the documented dynamic type:
  a string for \<open>select\<close>, \<open>table\<close>, \<open>where\<close>, \<open>group\<close> and \<open>order\<close>, a list of strings
  for \<open>join\<close>, an integer for \<open>offset\<close> and \<open>limit\<close>, a list of values for \<open>binds\<close>.
\<close>

definition has_key :: "X \<Rightarrow> string \<Rightarrow> bool" where
  "has_key Q k = (map_of Q k \<noteq> None)"

definition str_at :: "X \<Rightarrow> string \<Rightarrow> string option" where
  "str_at Q k = (case map_of Q k of Some (VStr s) \<Rightarrow> Some s | _ \<Rightarrow> None)"

definition int_at :: "X \<Rightarrow> string \<Rightarrow> int option" where
  "int_at Q k = (case map_of Q k of Some (VInt i) \<Rightarrow> Some i | _ \<Rightarrow> None)"

definition strings_at :: "X \<Rightarrow> string \<Rightarrow> string list option" where
  "strings_at Q k = (case map_of Q k of Some (VStrings ss) \<Rightarrow> Some ss | _ \<Rightarrow> None)"

definition slice_at :: "X \<Rightarrow> string \<Rightarrow> val list option" where
  "slice_at Q k = (case map_of Q k of Some (VSlice vs) \<Rightarrow> Some vs | _ \<Rightarrow> None)"

text \<open>A clause that the spec lists as "\<open>KEYWORD <text>\<close> if present".\<close>

definition spec_clause :: "string \<Rightarrow> string option \<Rightarrow> string list" where
  "spec_clause kw s = (case s of Some t \<Rightarrow> [kw @ t] | None \<Rightarrow> [])"

text \<open>The spec's rule for one entry of the data map of an update: an Expression Literal
  gives \<open>col = <raw fragment>\<close> and its own binds, any other value gives \<open>col = ?\<close> and
  itself.\<close>

fun spec_set_item :: "string \<times> val \<Rightarrow> string" where
  "spec_set_item (col, VExpr fragment args) = col @ '' = '' @ fragment"
| "spec_set_item (col, v) = col @ '' = ?''"

fun spec_set_binds :: "string \<times> val \<Rightarrow> val list" where
  "spec_set_binds (col, VExpr fragment args) = args"
| "spec_set_binds (col, v) = [v]"

text \<open>
  A key is well typed in a map when it is missing or holds a value of the dynamic type that
  the doc comments of \<open>mysql.go\<close> give for it.  \<open>typed_query\<close> covers the keys that
  \<open>buildQuery\<close> reads, \<open>typed_condition\<close> those that \<open>buildUpdate\<close> and \<open>buildDelete\<close>
  read.
\<close>

definition typed_str :: "X \<Rightarrow> string \<Rightarrow> bool" where
  "typed_str Q k = (case map_of Q k of None \<Rightarrow> True | Some (VStr s) \<Rightarrow> True | Some _ \<Rightarrow> False)"

definition typed_int :: "X \<Rightarrow> string \<Rightarrow> bool" where
  "typed_int Q k = (case map_of Q k of None \<Rightarrow> True | Some (VInt i) \<Rightarrow> True | Some _ \<Rightarrow> False)"

definition typed_strings :: "X \<Rightarrow> string \<Rightarrow> bool" where
  "typed_strings Q k =
     (case map_of Q k of None \<Rightarrow> True | Some (VStrings ss) \<Rightarrow> True | Some _ \<Rightarrow> False)"

definition typed_slice :: "X \<Rightarrow> string \<Rightarrow> bool" where
  "typed_slice Q k =
     (case map_of Q k of None \<Rightarrow> True | Some (VSlice vs) \<Rightarrow> True | Some _ \<Rightarrow> False)"

definition typed_query :: "X \<Rightarrow> bool" where
  "typed_query Q =
     (typed_str Q ''select'' \<and> typed_str Q ''table'' \<and> typed_strings Q ''join'' \<and>
      typed_str Q ''where'' \<and> typed_str Q ''group'' \<and> typed_str Q ''order'' \<and>
      typed_int Q ''offset'' \<and> typed_int Q ''limit'' \<and> typed_slice Q ''binds'')"

definition typed_condition :: "X \<Rightarrow> bool" where
  "typed_condition Q =
     (typed_str Q ''table'' \<and> typed_str Q ''where'' \<and> typed_slice Q ''binds'')"

definition no_nil_expr :: "X \<Rightarrow> bool" where
  "no_nil_expr D = (VNilExpr \<notin> set (map snd D))"

section \<open>Reading a transaction's trace\<close>

text \<open>The errors that \<open>tx.Exec\<close> returned, and the statements it was given, in the order
  of the calls; the events that a round of the loop can add.\<close>

fun exec_error :: "event \<Rightarrow> string list" where
  "exec_error (TxExec sql binds (Some e)) = [e]"
| "exec_error _ = []"

definition failures :: "event list \<Rightarrow> string list" where
  "failures tr = concat (map exec_error tr)"

fun exec_stmt :: "event \<Rightarrow> (string \<times> val list) list" where
  "exec_stmt (TxExec sql binds err) = [(sql, binds)]"
| "exec_stmt _ = []"

definition executed :: "event list \<Rightarrow> (string \<times> val list) list" where
  "executed tr = concat (map exec_stmt tr)"

fun loop_event :: "event \<Rightarrow> bool" where
  "loop_event (SqlxIn sql binds) = True"
| "loop_event (TxExec sql binds err) = True"
| "loop_event _ = False"

text \<open>
  The statement that the spec has a batch entry execute inside the transaction: the
  builder's pair for \<open>insert\<close> and \<open>batchInsert\<close>, the expanded pair for \<open>update\<close> and
  \<open>delete\<close>, none for any other tag (and none where building panics).
\<close>

definition built_statement :: "panic + (string \<times> val list) \<Rightarrow> (string \<times> val list) list" where
  "built_statement built = (case built of Inl p \<Rightarrow> [] | Inr stmt \<Rightarrow> [stmt])"

definition expanded_statement ::
    "world \<Rightarrow> panic + (string \<times> val list) \<Rightarrow> (string \<times> val list) list" where
  "expanded_statement w built =
     (case built of Inl p \<Rightarrow> [] | Inr (sql, binds) \<Rightarrow> [sqlx_In w sql binds])"

definition entry_statement :: "world \<Rightarrow> MySQL \<Rightarrow> string \<times> val \<Rightarrow> (string \<times> val list) list" where
  "entry_statement w m kv =
     (case kv of
        (key, VX opt) \<Rightarrow>
          (if key = ''insert'' then built_statement (insert_arm w m opt)
           else if key = ''batchInsert'' then built_statement (batchInsert_arm w m opt)
           else if key = ''update'' then expanded_statement w (update_arm w m opt)
           else if key = ''delete'' then expanded_statement w (buildDelete w m opt)
           else [])
      | (key, _) \<Rightarrow> [])"

definition recognised :: "string \<Rightarrow> bool" where
  "recognised key = (key \<in> {''insert'', ''batchInsert'', ''update'', ''delete''})"

fun is_begin :: "event \<Rightarrow> bool" where
  "is_begin (DbBegin err) = True"
| "is_begin _ = False"

fun is_X :: "val \<Rightarrow> bool" where
  "is_X (VX x) = True"
| "is_X _ = False"





text \<open>Batch entries for the example world.\<close>

definition example_insert :: "string \<times> val" where
  "example_insert =
     (''insert'', VX [(''table'', VStr ''log''), (''data'', VX [(''msg'', VStr ''hi'')])])"

definition example_update :: "string \<times> val" where
  "example_update = (''update'', VX [(''query'', VX example_condition), (''data'', VX example_data)])"

definition example_delete :: "string \<times> val" where
  "example_delete = (''delete'', VX [(''where'', VStr ''id = ?''), (''binds'', VSlice [VInt 42])])"

definition example_noop :: "string \<times> val" where
  "example_noop = (''noop'', VX [(''table'', VStr ''log'')])"

text \<open>
  Variants of the example world: a \<open>Get\<close> that stores the scanned value and then reports
  an error (as a row scan followed by a failing close does), and a \<open>Begin\<close> that fails; a
  receiver whose handle is not registered; a \<open>delete\<close> entry with an ill-typed \<open>where\<close>.
\<close>

definition example_world_store_then_fail :: world where
  "example_world_store_then_fail =
     example_world\<lparr>db_Get := (\<lambda>tr sql binds. (Some (VInt 5), Some ''driver: bad connection''))\<rparr>"


definition example_m_unregistered :: MySQL where
  "example_m_unregistered = \<lparr>DB = ''stats'', Table = ''user''\<rparr>"


text \<open>The calls of \<open>db.Get\<close> in a trace.\<close>

fun is_get :: "event \<Rightarrow> bool" where
  "is_get (DbGet sql binds) = True"
| "is_get _ = False"

section \<open>The insert builders\<close>



lemma column_loop_eq:
  "column_loop v C bs bvs = (bs @ map (index_X v) C, bvs @ replicate (length C) ''?'')"
  by (induction C arbitrary: bs bvs) (simp_all add: replicate_app_Cons_same)

lemma row_loop_eq:
  "row_loop C R ps bs =
     (ps @ replicate (length R) (''('' @ Join (replicate (length C) ''?'') '','' @ '')''),
      bs @ concat (map (\<lambda>v. map (index_X v) C) R))"
  by (induction R arbitrary: ps bs) (simp_all add: column_loop_eq replicate_app_Cons_same)

lemma nth_concat_uniform:
  "\<forall>r \<in> set R. length (f r) = n \<Longrightarrow> i < length R \<Longrightarrow> j < n \<Longrightarrow>
     concat (map f R) ! (i * n + j) = f (R ! i) ! j"
proof (induction R arbitrary: i)
  case Nil
  then show ?case by simp
next
  case (Cons r R)
  show ?case
  proof (cases i)
    case 0
    with Cons.prems show ?thesis by (simp add: nth_append)
  next
    case (Suc i')
    with Cons.prems have "concat (map f R) ! (i' * n + j) = f (R ! i') ! j"
      by (intro Cons.IH) auto
    with Suc Cons.prems show ?thesis by (simp add: nth_append)
  qed
qed

lemma length_concat_uniform:
  "\<forall>r \<in> set R. length (f r) = n \<Longrightarrow> length (concat (map f R)) = length R * n"
  by (induction R) simp_all

lemma index_X_cong:
  "map_of r c = map_of r' c \<Longrightarrow> index_X r c = index_X r' c"
  by (simp add: index_X_def)

lemma batch_binds_cong:
  assumes "length R' = length R"
    and "\<forall>i<length R. \<forall>c\<in>set C. map_of (R' ! i) c = map_of (R ! i) c"
  shows "map (\<lambda>v. map (index_X v) C) R' = map (\<lambda>v. map (index_X v) C) R"
proof (rule nth_equalityI)
  show "length (map (\<lambda>v. map (index_X v) C) R') = length (map (\<lambda>v. map (index_X v) C) R)"
    using assms(1) by simp
next
  fix i assume "i < length (map (\<lambda>v. map (index_X v) C) R')"
  then have i: "i < length R" "i < length R'" using assms(1) by simp_all
  have "map (index_X (R' ! i)) C = map (index_X (R ! i)) C"
    using assms(2) i(1) by (auto intro: index_X_cong)
  with i show "map (\<lambda>v. map (index_X v) C) R' ! i = map (\<lambda>v. map (index_X v) C) R ! i"
    by simp
qed

text \<open>
  Claim C5.  For every column list \<open>C\<close> and row list \<open>R\<close>, \<open>buildBatchInsert\<close> writes
  \<open>|R|\<close> groups \<open>(?,...,?)\<close> of \<open>|C|\<close> placeholders each and returns \<open>|R| * |C|\<close> binds; the
  bind at position \<open>i * |C| + j\<close> is what row \<open>i\<close> holds under column \<open>C ! j\<close>, and nil
  when the row has no such key.  Rows that agree on the keys of \<open>C\<close> give the same result,
  so keys outside \<open>C\<close> are ignored.
\<close>

theorem buildBatchInsert_row_major:
  assumes "buildBatchInsert w m C R tables = (sql, binds)"
  shows "sql = ''INSERT INTO '' @ getPrefix w m @ table0 m tables @ '' ('' @ Join C '','' @
           '') VALUES '' @
           Join (replicate (length R) (''('' @ Join (replicate (length C) ''?'') '','' @ '')'')) '',''
       \<and> length binds = length R * length C
       \<and> (\<forall>i<length R. \<forall>j<length C.
            binds ! (i * length C + j) =
              (case map_of (R ! i) (C ! j) of Some a \<Rightarrow> a | None \<Rightarrow> VNil))
       \<and> (\<forall>R'. length R' = length R \<and>
                 (\<forall>i<length R. \<forall>c\<in>set C. map_of (R' ! i) c = map_of (R ! i) c) \<longrightarrow>
              buildBatchInsert w m C R' tables = (sql, binds))"
proof -
  let ?f = "\<lambda>v. map (index_X v) C"
  have sql: "sql = ''INSERT INTO '' @ getPrefix w m @ table0 m tables @ '' ('' @ Join C '','' @
           '') VALUES '' @
           Join (replicate (length R) (''('' @ Join (replicate (length C) ''?'') '','' @ '')'')) '',''"
    and binds: "binds = concat (map ?f R)"
    using assms by (simp_all add: buildBatchInsert_def row_loop_eq)
  have uni: "\<forall>r \<in> set R. length (?f r) = length C" by simp
  have len: "length binds = length R * length C"
    unfolding binds using length_concat_uniform [OF uni] .
  have nth: "\<forall>i<length R. \<forall>j<length C.
            binds ! (i * length C + j) =
              (case map_of (R ! i) (C ! j) of Some a \<Rightarrow> a | None \<Rightarrow> VNil)"
  proof (intro allI impI)
    fix i j assume i: "i < length R" and j: "j < length C"
    have "binds ! (i * length C + j) = ?f (R ! i) ! j"
      unfolding binds using nth_concat_uniform [OF uni i j] .
    then show "binds ! (i * length C + j) =
              (case map_of (R ! i) (C ! j) of Some a \<Rightarrow> a | None \<Rightarrow> VNil)"
      using j by (simp add: index_X_def)
  qed
  have ign: "\<forall>R'. length R' = length R \<and>
                 (\<forall>i<length R. \<forall>c\<in>set C. map_of (R' ! i) c = map_of (R ! i) c) \<longrightarrow>
              buildBatchInsert w m C R' tables = (sql, binds)"
  proof (intro allI impI)
    fix R' assume h: "length R' = length R \<and>
                 (\<forall>i<length R. \<forall>c\<in>set C. map_of (R' ! i) c = map_of (R ! i) c)"
    then have "map ?f R' = map ?f R" by (intro batch_binds_cong) simp_all
    with h show "buildBatchInsert w m C R' tables = (sql, binds)"
      unfolding sql binds by (simp add: buildBatchInsert_def row_loop_eq)
  qed
  from sql len nth ign show ?thesis by blast
qed

theorem buildBatchInsert_row_major_witness:
  "buildBatchInsert example_world example_m [''a'', ''b'']
      [[(''a'', VInt 1), (''zz'', VInt 5)], [(''b'', VInt 2), (''a'', VInt 3)]] [''log''] =
     (''INSERT INTO yii_log (a,b) VALUES (?,?),(?,?)'', [VInt 1, VNil, VInt 3, VInt 2])
   \<and> length [VInt 1, VNil, VInt 3, VInt 2] = 2 * 2
   \<and> [VInt 1, VNil, VInt 3, VInt 2] ! (0 * 2 + 1) = VNil
   \<and> buildBatchInsert example_world example_m [''a'', ''b'']
        [[(''a'', VInt 1)], [(''a'', VInt 3), (''b'', VInt 2)]] [''log''] =
       (''INSERT INTO yii_log (a,b) VALUES (?,?),(?,?)'', [VInt 1, VNil, VInt 3, VInt 2])"
proof -
  have h: "buildBatchInsert example_world example_m [''a'', ''b'']
      [[(''a'', VInt 1), (''zz'', VInt 5)], [(''b'', VInt 2), (''a'', VInt 3)]] [''log''] =
     (''INSERT INTO yii_log (a,b) VALUES (?,?),(?,?)'', [VInt 1, VNil, VInt 3, VInt 2])"
    by (simp add: buildBatchInsert_def example_world_def example_m_def getPrefix_def
        dbname_def table0_def index_X_def)
  have agree: "length [[(''a'', VInt 1)], [(''a'', VInt 3), (''b'', VInt 2)]] =
        length [[(''a'', VInt 1), (''zz'', VInt 5)], [(''b'', VInt 2), (''a'', VInt 3)]]
     \<and> (\<forall>i<length [[(''a'', VInt 1), (''zz'', VInt 5)], [(''b'', VInt 2), (''a'', VInt 3)]].
          \<forall>c\<in>set [''a'', ''b''].
            map_of ([[(''a'', VInt 1)], [(''a'', VInt 3), (''b'', VInt 2)]] ! i) c =
            map_of ([[(''a'', VInt 1), (''zz'', VInt 5)], [(''b'', VInt 2), (''a'', VInt 3)]] ! i) c)"
    by (simp add: less_Suc_eq)
  from buildBatchInsert_row_major [OF h] agree h show ?thesis
    by simp
qed

section \<open>The condition-map builders\<close>

lemma and_then_Inr: "and_then r f = Inr y \<longleftrightarrow> (\<exists>a. r = Inr a \<and> f a = Inr y)"
  by (cases r) (simp_all add: and_then_def)

lemma string_clause_Inr:
  assumes "string_clause Q k kw cl = Inr cl'"
  shows "cl' = cl @ spec_clause kw (str_at Q k)" and "has_key Q k = (str_at Q k \<noteq> None)"
  using assms
  by (auto simp: string_clause_def and_then_def as_string_def spec_clause_def str_at_def has_key_def
      split: option.splits val.splits)

lemma int_clause_Inr:
  assumes "int_clause Q k kw cl = Inr cl'"
  shows "cl' = cl @ spec_clause kw (map_option fmt_d (int_at Q k))"
    and "has_key Q k = (int_at Q k \<noteq> None)"
  using assms
  by (auto simp: int_clause_def and_then_def as_int_def spec_clause_def int_at_def has_key_def
      split: option.splits val.splits)

lemma select_clause_Inr:
  assumes "select_clause Q = Inr cl'"
  shows "cl' = [''SELECT '' @ (case str_at Q ''select'' of Some s \<Rightarrow> s | None \<Rightarrow> ''*'')]"
    and "has_key Q ''select'' = (str_at Q ''select'' \<noteq> None)"
  using assms
  by (auto simp: select_clause_def and_then_def as_string_def str_at_def has_key_def
      split: option.splits val.splits)

lemma query_table_Inr:
  assumes "query_table m Q = Inr t"
  shows "t = (case str_at Q ''table'' of Some s \<Rightarrow> s | None \<Rightarrow> Table m)"
    and "has_key Q ''table'' = (str_at Q ''table'' \<noteq> None)"
  using assms
  by (auto simp: query_table_def as_string_def str_at_def has_key_def
      split: option.splits val.splits)

lemma from_clause_Inr:
  assumes "from_clause Q p t cl = Inr cl'"
  shows "cl' = cl @ [''FROM '' @ p @ t @ (if has_key Q ''join'' then '' AS a'' else [])] @
           (case strings_at Q ''join'' of Some js \<Rightarrow> js | None \<Rightarrow> [])"
    and "has_key Q ''join'' = (strings_at Q ''join'' \<noteq> None)"
  using assms
  by (auto simp: from_clause_def and_then_def as_strings_def strings_at_def has_key_def
      split: option.splits val.splits)

lemma query_binds_Inr:
  assumes "query_binds Q bs = Inr bs'"
  shows "bs' = bs @ (case slice_at Q ''binds'' of Some vs \<Rightarrow> vs | None \<Rightarrow> [])"
    and "has_key Q ''binds'' = (slice_at Q ''binds'' \<noteq> None)"
  using assms
  by (auto simp: query_binds_def and_then_def as_slice_def slice_at_def has_key_def
      split: option.splits val.splits)

lemma buildQuery_steps:
  assumes "buildQuery w m Q = Inr (sql, binds)"
  obtains c1 t c2 c3 c4 c5 c6 c7 where
    "select_clause Q = Inr c1" "query_table m Q = Inr t"
    "from_clause Q (getPrefix w m) t c1 = Inr c2"
    "string_clause Q ''where'' ''WHERE '' c2 = Inr c3"
    "string_clause Q ''group'' ''GROUP BY '' c3 = Inr c4"
    "string_clause Q ''order'' ''ORDER BY '' c4 = Inr c5"
    "int_clause Q ''offset'' ''OFFSET '' c5 = Inr c6"
    "int_clause Q ''limit'' ''LIMIT '' c6 = Inr c7"
    "query_binds Q [] = Inr binds" "sql = Join c7 '' ''"
  using assms unfolding buildQuery_def and_then_Inr by auto

lemma buildQuery_closed_form:
  assumes "buildQuery w m Q = Inr (sql, binds)"
  shows "sql = Join ([''SELECT '' @ (case str_at Q ''select'' of Some s \<Rightarrow> s | None \<Rightarrow> ''*''),
                     ''FROM '' @ getPrefix w m @
                       (case str_at Q ''table'' of Some t \<Rightarrow> t | None \<Rightarrow> Table m) @
                       (if has_key Q ''join'' then '' AS a'' else [])] @
                    (case strings_at Q ''join'' of Some js \<Rightarrow> js | None \<Rightarrow> []) @
                    spec_clause ''WHERE '' (str_at Q ''where'') @
                    spec_clause ''GROUP BY '' (str_at Q ''group'') @
                    spec_clause ''ORDER BY '' (str_at Q ''order'') @
                    spec_clause ''OFFSET '' (map_option fmt_d (int_at Q ''offset'')) @
                    spec_clause ''LIMIT '' (map_option fmt_d (int_at Q ''limit''))) '' ''"
    and "binds = (case slice_at Q ''binds'' of Some vs \<Rightarrow> vs | None \<Rightarrow> [])"
    and "has_key Q ''select'' = (str_at Q ''select'' \<noteq> None)"
    and "has_key Q ''table'' = (str_at Q ''table'' \<noteq> None)"
    and "has_key Q ''join'' = (strings_at Q ''join'' \<noteq> None)"
    and "has_key Q ''where'' = (str_at Q ''where'' \<noteq> None)"
    and "has_key Q ''group'' = (str_at Q ''group'' \<noteq> None)"
    and "has_key Q ''order'' = (str_at Q ''order'' \<noteq> None)"
    and "has_key Q ''offset'' = (int_at Q ''offset'' \<noteq> None)"
    and "has_key Q ''limit'' = (int_at Q ''limit'' \<noteq> None)"
    and "has_key Q ''binds'' = (slice_at Q ''binds'' \<noteq> None)"
proof -
  from assms obtain c1 t c2 c3 c4 c5 c6 c7 where
    c1: "select_clause Q = Inr c1" and t: "query_table m Q = Inr t"
    and c2: "from_clause Q (getPrefix w m) t c1 = Inr c2"
    and c3: "string_clause Q ''where'' ''WHERE '' c2 = Inr c3"
    and c4: "string_clause Q ''group'' ''GROUP BY '' c3 = Inr c4"
    and c5: "string_clause Q ''order'' ''ORDER BY '' c4 = Inr c5"
    and c6: "int_clause Q ''offset'' ''OFFSET '' c5 = Inr c6"
    and c7: "int_clause Q ''limit'' ''LIMIT '' c6 = Inr c7"
    and bs: "query_binds Q [] = Inr binds" and sql: "sql = Join c7 '' ''"
    by (rule buildQuery_steps)
  show "sql = Join ([''SELECT '' @ (case str_at Q ''select'' of Some s \<Rightarrow> s | None \<Rightarrow> ''*''),
                     ''FROM '' @ getPrefix w m @
                       (case str_at Q ''table'' of Some t \<Rightarrow> t | None \<Rightarrow> Table m) @
                       (if has_key Q ''join'' then '' AS a'' else [])] @
                    (case strings_at Q ''join'' of Some js \<Rightarrow> js | None \<Rightarrow> []) @
                    spec_clause ''WHERE '' (str_at Q ''where'') @
                    spec_clause ''GROUP BY '' (str_at Q ''group'') @
                    spec_clause ''ORDER BY '' (str_at Q ''order'') @
                    spec_clause ''OFFSET '' (map_option fmt_d (int_at Q ''offset'')) @
                    spec_clause ''LIMIT '' (map_option fmt_d (int_at Q ''limit''))) '' ''"
    unfolding sql int_clause_Inr(1) [OF c7] int_clause_Inr(1) [OF c6]
      string_clause_Inr(1) [OF c5] string_clause_Inr(1) [OF c4] string_clause_Inr(1) [OF c3]
      from_clause_Inr(1) [OF c2] query_table_Inr(1) [OF t] select_clause_Inr(1) [OF c1]
    by simp
  show "binds = (case slice_at Q ''binds'' of Some vs \<Rightarrow> vs | None \<Rightarrow> [])"
    using query_binds_Inr(1) [OF bs] by simp
  show "has_key Q ''select'' = (str_at Q ''select'' \<noteq> None)" by (rule select_clause_Inr(2) [OF c1])
  show "has_key Q ''table'' = (str_at Q ''table'' \<noteq> None)" by (rule query_table_Inr(2) [OF t])
  show "has_key Q ''join'' = (strings_at Q ''join'' \<noteq> None)" by (rule from_clause_Inr(2) [OF c2])
  show "has_key Q ''where'' = (str_at Q ''where'' \<noteq> None)" by (rule string_clause_Inr(2) [OF c3])
  show "has_key Q ''group'' = (str_at Q ''group'' \<noteq> None)" by (rule string_clause_Inr(2) [OF c4])
  show "has_key Q ''order'' = (str_at Q ''order'' \<noteq> None)" by (rule string_clause_Inr(2) [OF c5])
  show "has_key Q ''offset'' = (int_at Q ''offset'' \<noteq> None)" by (rule int_clause_Inr(2) [OF c6])
  show "has_key Q ''limit'' = (int_at Q ''limit'' \<noteq> None)" by (rule int_clause_Inr(2) [OF c7])
  show "has_key Q ''binds'' = (slice_at Q ''binds'' \<noteq> None)" by (rule query_binds_Inr(2) [OF bs])
qed

lemma buildQuery_empty:
  "buildQuery w m [] = Inr (''SELECT * FROM '' @ getPrefix w m @ Table m, [])"
  by (simp add: buildQuery_def and_then_def select_clause_def query_table_def from_clause_def
      string_clause_def int_clause_def query_binds_def)

lemma buildQuery_example:
  "buildQuery example_world example_m example_query =
     Inr (''SELECT a.id, b.name FROM yii_order AS a LEFT JOIN yii_user AS b ON a.uid = b.id WHERE a.id > ? GROUP BY a.uid ORDER BY a.id DESC OFFSET 20 LIMIT 10'',
          [VInt 5])"
  by (simp add: buildQuery_def and_then_def select_clause_def from_clause_def int_clause_def
      query_table_def string_clause_def query_binds_def as_strings_def as_int_def fmt_d_def
      decimal.simps digit_def as_string_def as_slice_def example_world_def example_m_def
      example_query_def getPrefix_def dbname_def)

text \<open>
  Claim C7.  Whenever \<open>buildQuery\<close> returns, the statement is the clauses \<open>SELECT\<close>,
  \<open>FROM\<close> (with \<open>AS a\<close> exactly when the map has a \<open>join\<close> key, and then the join strings
  as they are), \<open>WHERE\<close>, \<open>GROUP BY\<close>, \<open>ORDER BY\<close>, \<open>OFFSET\<close>, \<open>LIMIT\<close> in this order,
  joined by single spaces, a conditional clause being there exactly when the map has its
  key; the binds are the sequence under \<open>binds\<close>, and none without that key.  On the empty
  map the result is \<open>SELECT * FROM <prefix><table>\<close> with no binds.
\<close>

theorem buildQuery_clause_order:
  "buildQuery w m [] = Inr (''SELECT * FROM '' @ getPrefix w m @ Table m, [])
   \<and> (buildQuery w m Q = Inr (sql, binds) \<longrightarrow>
        sql = Join ([''SELECT '' @ (case str_at Q ''select'' of Some s \<Rightarrow> s | None \<Rightarrow> ''*''),
                     ''FROM '' @ getPrefix w m @
                       (case str_at Q ''table'' of Some t \<Rightarrow> t | None \<Rightarrow> Table m) @
                       (if has_key Q ''join'' then '' AS a'' else [])] @
                    (case strings_at Q ''join'' of Some js \<Rightarrow> js | None \<Rightarrow> []) @
                    spec_clause ''WHERE '' (str_at Q ''where'') @
                    spec_clause ''GROUP BY '' (str_at Q ''group'') @
                    spec_clause ''ORDER BY '' (str_at Q ''order'') @
                    spec_clause ''OFFSET '' (map_option fmt_d (int_at Q ''offset'')) @
                    spec_clause ''LIMIT '' (map_option fmt_d (int_at Q ''limit''))) '' ''
        \<and> binds = (case slice_at Q ''binds'' of Some vs \<Rightarrow> vs | None \<Rightarrow> [])
        \<and> has_key Q ''select'' = (str_at Q ''select'' \<noteq> None)
        \<and> has_key Q ''table'' = (str_at Q ''table'' \<noteq> None)
        \<and> has_key Q ''join'' = (strings_at Q ''join'' \<noteq> None)
        \<and> has_key Q ''where'' = (str_at Q ''where'' \<noteq> None)
        \<and> has_key Q ''group'' = (str_at Q ''group'' \<noteq> None)
        \<and> has_key Q ''order'' = (str_at Q ''order'' \<noteq> None)
        \<and> has_key Q ''offset'' = (int_at Q ''offset'' \<noteq> None)
        \<and> has_key Q ''limit'' = (int_at Q ''limit'' \<noteq> None)
        \<and> has_key Q ''binds'' = (slice_at Q ''binds'' \<noteq> None))"
  using buildQuery_empty [of w m] buildQuery_closed_form [of w m Q sql binds]
  by (intro conjI impI) assumption+

theorem buildQuery_clause_order_witness:
  "buildQuery example_world example_m example_query =
     Inr (''SELECT a.id, b.name FROM yii_order AS a LEFT JOIN yii_user AS b ON a.uid = b.id WHERE a.id > ? GROUP BY a.uid ORDER BY a.id DESC OFFSET 20 LIMIT 10'',
          [VInt 5])
   \<and> ''SELECT a.id, b.name FROM yii_order AS a LEFT JOIN yii_user AS b ON a.uid = b.id WHERE a.id > ? GROUP BY a.uid ORDER BY a.id DESC OFFSET 20 LIMIT 10'' =
       Join [''SELECT a.id, b.name'', ''FROM yii_order AS a'',
             ''LEFT JOIN yii_user AS b ON a.uid = b.id'', ''WHERE a.id > ?'', ''GROUP BY a.uid'',
             ''ORDER BY a.id DESC'', ''OFFSET 20'', ''LIMIT 10''] '' ''
   \<and> has_key example_query ''join''
   \<and> slice_at example_query ''binds'' = Some [VInt 5]"
  using buildQuery_clause_order [of example_world example_m example_query
      "''SELECT a.id, b.name FROM yii_order AS a LEFT JOIN yii_user AS b ON a.uid = b.id WHERE a.id > ? GROUP BY a.uid ORDER BY a.id DESC OFFSET 20 LIMIT 10''"
      "[VInt 5]"]
    buildQuery_example
  by (simp add: example_query_def has_key_def slice_at_def)

lemma set_loop_Inr:
  "set_loop D ss bs = Inr (ss', bs') \<Longrightarrow>
     ss' = ss @ map spec_set_item D \<and> bs' = bs @ concat (map spec_set_binds D)"
proof (induction D arbitrary: ss bs)
  case Nil
  then show ?case by simp
next
  case (Cons kv D)
  obtain k v where kv: "kv = (k, v)" by (cases kv)
  show ?case
  proof (cases v)
    case (VExpr e args)
    with Cons.prems kv have "set_loop D (ss @ [k @ '' = '' @ e]) (bs @ args) = Inr (ss', bs')"
      by simp
    from Cons.IH [OF this] show ?thesis by (simp add: kv VExpr)
  next
    case VNilExpr
    with Cons.prems kv show ?thesis by simp
  qed (use Cons.prems kv Cons.IH [of "ss @ [k @ '' = ?'']" "bs @ [v]"] in simp_all)
qed

lemma buildUpdate_steps:
  assumes "buildUpdate w m Q D = Inr (sql, binds)"
  obtains t ss bs cl where
    "query_table m Q = Inr t" "set_loop D [] [] = Inr (ss, bs)"
    "string_clause Q ''where'' ''WHERE ''
        [''UPDATE '' @ getPrefix w m @ t, ''SET '' @ Join ss '',''] = Inr cl"
    "query_binds Q bs = Inr binds" "sql = Join cl '' ''"
  using assms by (auto simp: buildUpdate_def and_then_Inr)

lemma buildUpdate_example:
  "buildUpdate example_world example_m example_condition example_data =
     Inr (''UPDATE yii_user SET price = price * ? + ?,name = ? WHERE id IN ?'',
          [VInt 2, VInt 100, VStr ''x'', VSlice [VInt 1, VInt 2]])"
  by (simp add: buildUpdate_def and_then_def query_table_def string_clause_def query_binds_def
      as_string_def as_slice_def example_world_def example_m_def example_condition_def
      example_data_def getPrefix_def dbname_def)

text \<open>
  Claim C4.  Whenever \<open>buildUpdate\<close> returns, its \<open>SET\<close> clause lists, entry by entry of
  the data map in the order visited, \<open>col = <raw fragment>\<close> for an Expression Literal and
  \<open>col = ?\<close> for any other value; the bind list is, entry by entry, the literal's own
  binds in their order or the value itself, and after all of these the sequence under the
  condition map's \<open>binds\<close>.
\<close>

theorem buildUpdate_set_then_where:
  assumes "buildUpdate w m Q D = Inr (sql, binds)"
  shows "sql = Join ([''UPDATE '' @ getPrefix w m @
                        (case str_at Q ''table'' of Some t \<Rightarrow> t | None \<Rightarrow> Table m),
                      ''SET '' @ Join (map spec_set_item D) '',''] @
                     spec_clause ''WHERE '' (str_at Q ''where'')) '' ''
       \<and> binds = concat (map spec_set_binds D) @
                 (case slice_at Q ''binds'' of Some vs \<Rightarrow> vs | None \<Rightarrow> [])"
proof -
  from assms obtain t ss bs cl where
    t: "query_table m Q = Inr t" and loop: "set_loop D [] [] = Inr (ss, bs)"
    and cl: "string_clause Q ''where'' ''WHERE ''
        [''UPDATE '' @ getPrefix w m @ t, ''SET '' @ Join ss '',''] = Inr cl"
    and b: "query_binds Q bs = Inr binds" and sql: "sql = Join cl '' ''"
    by (rule buildUpdate_steps)
  from set_loop_Inr [OF loop] have ss: "ss = map spec_set_item D"
    and bs: "bs = concat (map spec_set_binds D)" by simp_all
  show ?thesis
    unfolding sql string_clause_Inr(1) [OF cl] query_binds_Inr(1) [OF b] query_table_Inr(1) [OF t]
      ss bs by simp
qed

theorem buildUpdate_set_then_where_witness:
  "buildUpdate example_world example_m example_condition example_data =
     Inr (''UPDATE yii_user SET price = price * ? + ?,name = ? WHERE id IN ?'',
          [VInt 2, VInt 100, VStr ''x'', VSlice [VInt 1, VInt 2]])
   \<and> ''UPDATE yii_user SET price = price * ? + ?,name = ? WHERE id IN ?'' =
       Join [''UPDATE yii_user'', ''SET '' @ Join [''price = price * ? + ?'', ''name = ?''] '','',
             ''WHERE id IN ?''] '' ''
   \<and> [VInt 2, VInt 100, VStr ''x'', VSlice [VInt 1, VInt 2]] =
       concat [[VInt 2, VInt 100], [VStr ''x'']] @ [VSlice [VInt 1, VInt 2]]"
  using buildUpdate_set_then_where [OF buildUpdate_example] buildUpdate_example
  by simp

section \<open>When the builders return\<close>

lemma and_then_simps:
  "and_then (Inr a) f = f a" "and_then (Inl p) f = Inl p"
  "and_then (if c then x else y) f = (if c then and_then x f else and_then y f)"
  by (simp_all add: and_then_def)

lemma string_clause_eq:
  "string_clause Q k kw cl =
     (if typed_str Q k then Inr (cl @ spec_clause kw (str_at Q k)) else Inl TypeAssertion)"
  by (simp add: string_clause_def and_then_def as_string_def spec_clause_def str_at_def
      typed_str_def split: option.splits val.splits)

lemma int_clause_eq:
  "int_clause Q k kw cl =
     (if typed_int Q k then Inr (cl @ spec_clause kw (map_option fmt_d (int_at Q k)))
      else Inl TypeAssertion)"
  by (simp add: int_clause_def and_then_def as_int_def spec_clause_def int_at_def
      typed_int_def split: option.splits val.splits)

lemma select_clause_eq:
  "select_clause Q =
     (if typed_str Q ''select''
      then Inr [''SELECT '' @ (case str_at Q ''select'' of Some s \<Rightarrow> s | None \<Rightarrow> ''*'')]
      else Inl TypeAssertion)"
  by (simp add: select_clause_def and_then_def as_string_def str_at_def
      typed_str_def split: option.splits val.splits)

lemma query_table_eq:
  "query_table m Q =
     (if typed_str Q ''table''
      then Inr (case str_at Q ''table'' of Some s \<Rightarrow> s | None \<Rightarrow> Table m)
      else Inl TypeAssertion)"
  by (simp add: query_table_def as_string_def str_at_def
      typed_str_def split: option.splits val.splits)

lemma from_clause_eq:
  "from_clause Q p t cl =
     (if typed_strings Q ''join''
      then Inr (cl @ [''FROM '' @ p @ t @ (if has_key Q ''join'' then '' AS a'' else [])] @
                (case strings_at Q ''join'' of Some js \<Rightarrow> js | None \<Rightarrow> []))
      else Inl TypeAssertion)"
  by (simp add: from_clause_def and_then_def as_strings_def strings_at_def has_key_def
      typed_strings_def split: option.splits val.splits)

lemma query_binds_eq:
  "query_binds Q bs =
     (if typed_slice Q ''binds''
      then Inr (bs @ (case slice_at Q ''binds'' of Some vs \<Rightarrow> vs | None \<Rightarrow> []))
      else Inl TypeAssertion)"
  by (simp add: query_binds_def and_then_def as_slice_def slice_at_def
      typed_slice_def split: option.splits val.splits)

lemma buildQuery_typed:
  "typed_query Q \<Longrightarrow> \<exists>r. buildQuery w m Q = Inr r"
  by (simp add: buildQuery_def typed_query_def and_then_simps string_clause_eq int_clause_eq
      select_clause_eq query_table_eq from_clause_eq query_binds_eq)

lemma buildQuery_untyped:
  "\<not> typed_query Q \<Longrightarrow> buildQuery w m Q = Inl TypeAssertion"
  by (simp add: buildQuery_def typed_query_def and_then_simps string_clause_eq int_clause_eq
      select_clause_eq query_table_eq from_clause_eq query_binds_eq)

lemma buildDelete_typed:
  "typed_condition Q \<Longrightarrow> \<exists>r. buildDelete w m Q = Inr r"
  by (simp add: buildDelete_def typed_condition_def and_then_simps string_clause_eq
      query_table_eq query_binds_eq)

lemma buildDelete_untyped:
  "\<not> typed_condition Q \<Longrightarrow> buildDelete w m Q = Inl TypeAssertion"
  by (simp add: buildDelete_def typed_condition_def and_then_simps string_clause_eq
      query_table_eq query_binds_eq)

lemma set_loop_no_nil:
  "no_nil_expr D \<Longrightarrow> \<exists>r. set_loop D ss bs = Inr r"
proof (induction D arbitrary: ss bs)
  case Nil
  then show ?case by simp
next
  case (Cons kv D)
  obtain k v where kv: "kv = (k, v)" by (cases kv)
  from Cons.prems kv have v: "v \<noteq> VNilExpr" and D: "no_nil_expr D"
    by (auto simp: no_nil_expr_def)
  show ?case unfolding kv using v Cons.IH [OF D] by (cases v) simp_all
qed

lemma set_loop_nil:
  "\<not> no_nil_expr D \<Longrightarrow> set_loop D ss bs = Inl NilPointer"
proof (induction D arbitrary: ss bs)
  case Nil
  then show ?case by (simp add: no_nil_expr_def)
next
  case (Cons kv D)
  obtain k v where kv: "kv = (k, v)" by (cases kv)
  show ?case
  proof (cases "v = VNilExpr")
    case True
    then show ?thesis by (simp add: kv)
  next
    case False
    with Cons.prems kv have "\<not> no_nil_expr D" by (auto simp: no_nil_expr_def)
    from Cons.IH [OF this] False show ?thesis unfolding kv by (cases v) simp_all
  qed
qed

lemma buildUpdate_typed:
  assumes "typed_condition Q" and "no_nil_expr D"
  shows "\<exists>r. buildUpdate w m Q D = Inr r"
proof -
  from set_loop_no_nil [OF assms(2)] obtain ss bs where "set_loop D [] [] = Inr (ss, bs)"
    by fastforce
  with assms(1) show ?thesis
    by (simp add: buildUpdate_def typed_condition_def and_then_simps string_clause_eq
        query_table_eq query_binds_eq)
qed

lemma buildUpdate_untyped:
  assumes "\<not> (typed_condition Q \<and> no_nil_expr D)"
  shows "\<exists>p. buildUpdate w m Q D = Inl p"
proof (cases "no_nil_expr D")
  case True
  from set_loop_no_nil [OF True] obtain ss bs where "set_loop D [] [] = Inr (ss, bs)"
    by fastforce
  with assms True show ?thesis
    by (simp add: buildUpdate_def typed_condition_def and_then_simps string_clause_eq
        query_table_eq query_binds_eq)
next
  case False
  from set_loop_nil [OF False] show ?thesis
    by (simp add: buildUpdate_def and_then_simps query_table_eq)
qed

text \<open>
  Claim C3, as amended.  \<open>buildInsert\<close> and \<open>buildBatchInsert\<close> return a pair on every
  input.  \<open>buildQuery\<close> returns a pair exactly when every key it reads is well typed, and
  panics in a type assertion otherwise; so does \<open>buildDelete\<close> for the keys \<open>table\<close>,
  \<open>where\<close> and \<open>binds\<close>; \<open>buildUpdate\<close> returns a pair exactly when these three keys are
  well typed and no value of the data map is a nil \<open>*expr\<close>, and panics otherwise.
\<close>

theorem builders_return_on_typed_maps:
  "(\<exists>sql binds. buildInsert w m D tables = (sql, binds))
   \<and> (\<exists>sql binds. buildBatchInsert w m C R tables = (sql, binds))
   \<and> (if typed_query Q then \<exists>sql binds. buildQuery w m Q = Inr (sql, binds)
       else buildQuery w m Q = Inl TypeAssertion)
   \<and> (if typed_condition Q then \<exists>sql binds. buildDelete w m Q = Inr (sql, binds)
       else buildDelete w m Q = Inl TypeAssertion)
   \<and> (if typed_condition Q \<and> no_nil_expr D then \<exists>sql binds. buildUpdate w m Q D = Inr (sql, binds)
       else \<exists>p. buildUpdate w m Q D = Inl p)"
proof (intro conjI)
  show "\<exists>sql binds. buildInsert w m D tables = (sql, binds)"
    by (cases "buildInsert w m D tables") simp
  show "\<exists>sql binds. buildBatchInsert w m C R tables = (sql, binds)"
    by (cases "buildBatchInsert w m C R tables") simp
  show "if typed_query Q then \<exists>sql binds. buildQuery w m Q = Inr (sql, binds)
       else buildQuery w m Q = Inl TypeAssertion"
    using buildQuery_typed [of Q w m] buildQuery_untyped [of Q w m] by auto
  show "if typed_condition Q then \<exists>sql binds. buildDelete w m Q = Inr (sql, binds)
       else buildDelete w m Q = Inl TypeAssertion"
    using buildDelete_typed [of Q w m] buildDelete_untyped [of Q w m] by auto
  show "if typed_condition Q \<and> no_nil_expr D then \<exists>sql binds. buildUpdate w m Q D = Inr (sql, binds)
       else \<exists>p. buildUpdate w m Q D = Inl p"
    using buildUpdate_typed [of Q D w m] buildUpdate_untyped [of Q D w m] by auto
qed

theorem builders_return_on_typed_maps_witness:
  "typed_query example_query
   \<and> (\<exists>sql binds. buildQuery example_world example_m example_query = Inr (sql, binds))
   \<and> \<not> typed_query [(''limit'', VStr ''10'')]
   \<and> buildQuery example_world example_m [(''limit'', VStr ''10'')] = Inl TypeAssertion
   \<and> typed_condition example_condition \<and> no_nil_expr example_data
   \<and> (\<exists>sql binds. buildUpdate example_world example_m example_condition example_data =
        Inr (sql, binds))
   \<and> \<not> typed_condition [(''where'', VInt 1)]
   \<and> buildDelete example_world example_m [(''where'', VInt 1)] = Inl TypeAssertion"
proof -
  have t1: "typed_query example_query"
    by (simp add: typed_query_def typed_str_def typed_int_def typed_strings_def typed_slice_def
        example_query_def)
  have t2: "\<not> typed_query [(''limit'', VStr ''10'')]"
    by (simp add: typed_query_def typed_str_def typed_int_def typed_strings_def typed_slice_def)
  have t3: "typed_condition example_condition \<and> no_nil_expr example_data"
    by (simp add: typed_condition_def typed_str_def typed_slice_def example_condition_def
        example_data_def no_nil_expr_def)
  have t4: "\<not> typed_condition [(''where'', VInt 1)]"
    by (simp add: typed_condition_def typed_str_def typed_slice_def)
  from t1 t2 t3 t4
    builders_return_on_typed_maps [where Q = example_query and w = example_world
      and m = example_m]
    builders_return_on_typed_maps [where Q = "[(''limit'', VStr ''10'')]" and w = example_world
      and m = example_m]
    builders_return_on_typed_maps [where Q = example_condition and D = example_data
      and w = example_world and m = example_m]
    builders_return_on_typed_maps [where Q = "[(''where'', VInt 1)]" and w = example_world
      and m = example_m]
  show ?thesis by simp
qed

text \<open>The claim as stated fails: a \<open>limit\<close> given as the string \<open>10\<close> makes \<open>buildQuery\<close>
  panic in \<open>v.(int)\<close>.\<close>

theorem builders_total_counterexample:
  "buildQuery example_world example_m [(''limit'', VStr ''10'')] = Inl TypeAssertion"
  by (simp add: buildQuery_def and_then_def select_clause_def query_table_def from_clause_def
      string_clause_def int_clause_def as_int_def)

section \<open>Count and FindOne\<close>

lemma map_of_assign: "map_of (assign k v q) = (map_of q)(k \<mapsto> v)"
  by (induction q) (auto simp: fun_eq_iff)

lemma getDB_registered: "dbmap w (dbname m) \<Longrightarrow> getDB w m = ([], Inr ())"
  by (simp add: getDB_def)

lemma Join_Cons: "Join (x # xs) sep = x @ concat (map ((@) sep) xs)"
  by (induction xs arbitrary: x) simp_all

lemma Join_snoc: "xs \<noteq> [] \<Longrightarrow> Join (xs @ [y]) sep = Join xs sep @ sep @ y"
  by (induction xs sep rule: Join.induct) simp_all

lemma fmt_d_1: "fmt_d 1 = ''1''"
  by (simp add: fmt_d_def decimal.simps digit_def)

lemma str_at_assign: "str_at (assign k (VStr s) q) k = Some s"
  by (simp add: str_at_def map_of_assign)

lemma int_at_assign: "int_at (assign k (VInt i) q) k = Some i"
  by (simp add: int_at_def map_of_assign)

lemma buildQuery_select_prefix:
  assumes "buildQuery w m Q = Inr (sql, binds)" and "str_at Q ''select'' = Some s"
  shows "take (length (''SELECT '' @ s)) sql = ''SELECT '' @ s"
  unfolding buildQuery_closed_form(1) [OF assms(1)] assms(2)
  by (simp add: Join_Cons del: Join.simps)

lemma buildQuery_limit_suffix:
  assumes "buildQuery w m Q = Inr (sql, binds)" and "int_at Q ''limit'' = Some i"
  shows "\<exists>pre. sql = pre @ '' LIMIT '' @ fmt_d i"
proof -
  let ?front = "[''SELECT '' @ (case str_at Q ''select'' of Some s \<Rightarrow> s | None \<Rightarrow> ''*''),
                     ''FROM '' @ getPrefix w m @
                       (case str_at Q ''table'' of Some t \<Rightarrow> t | None \<Rightarrow> Table m) @
                       (if has_key Q ''join'' then '' AS a'' else [])] @
                    (case strings_at Q ''join'' of Some js \<Rightarrow> js | None \<Rightarrow> []) @
                    spec_clause ''WHERE '' (str_at Q ''where'') @
                    spec_clause ''GROUP BY '' (str_at Q ''group'') @
                    spec_clause ''ORDER BY '' (str_at Q ''order'') @
                    spec_clause ''OFFSET '' (map_option fmt_d (int_at Q ''offset''))"
  have "sql = Join (?front @ [''LIMIT '' @ fmt_d i]) '' ''"
    unfolding buildQuery_closed_form(1) [OF assms(1)] assms(2) by (simp add: spec_clause_def)
  also have "\<dots> = Join ?front '' '' @ '' '' @ ''LIMIT '' @ fmt_d i"
    by (rule Join_snoc) simp
  finally show ?thesis by simp
qed

lemma Count_registered:
  assumes "dbmap w (dbname m)"
  shows "Count w m (Some q) data columns =
     (let q' = assign ''select'' (VStr (count_select columns)) q in
      case buildQuery w m q' of
        Inl p \<Rightarrow> ([], Some q', data, Inl p)
      | Inr (sql, binds) \<Rightarrow>
          (case data of
             None \<Rightarrow> ([SqlxIn sql binds, DbGet (fst (sqlx_In w sql binds)) (snd (sqlx_In w sql binds))],
                       Some q', None, Inl NilPointer)
           | Some _ \<Rightarrow>
              ([SqlxIn sql binds, DbGet (fst (sqlx_In w sql binds)) (snd (sqlx_In w sql binds))],
               Some q',
               Some (case fst (db_Get w [SqlxIn sql binds] (fst (sqlx_In w sql binds))
                                 (snd (sqlx_In w sql binds))) of
                       Some (VInt n) \<Rightarrow> n | _ \<Rightarrow> 0),
               Inr (snd (db_Get w [SqlxIn sql binds] (fst (sqlx_In w sql binds))
                                 (snd (sqlx_In w sql binds)))))))"
  by (simp add: Count_def getDB_registered [OF assms] Let_def
      split: sum.splits prod.splits option.splits)

lemma FindOne_registered:
  assumes "dbmap w (dbname m)"
  shows "FindOne w m (Some q) =
     (let q' = assign ''limit'' (VInt 1) q in
      case buildQuery w m q' of
        Inl p \<Rightarrow> ([], Some q', Inl p)
      | Inr (sql, binds) \<Rightarrow>
          ([SqlxIn sql binds, DbGet (fst (sqlx_In w sql binds)) (snd (sqlx_In w sql binds))] @
             log_unless_no_rows ''[MySQL] FindOne Error: ''
               (snd (db_Get w [SqlxIn sql binds] (fst (sqlx_In w sql binds))
                                 (snd (sqlx_In w sql binds)))),
           Some q',
           Inr (snd (db_Get w [SqlxIn sql binds] (fst (sqlx_In w sql binds))
                                 (snd (sqlx_In w sql binds))))))"
  by (simp add: FindOne_def getDB_registered [OF assms] Let_def
      split: sum.splits prod.splits option.splits)

lemmas build_defs = buildQuery_def and_then_def select_clause_def from_clause_def int_clause_def
      query_table_def string_clause_def query_binds_def as_strings_def as_int_def fmt_d_def
      decimal.simps digit_def as_string_def as_slice_def getPrefix_def dbname_def

lemma example_registered: "dbmap example_world (dbname example_m)"
  by (simp add: example_world_def example_m_def dbname_def)

lemma Count_example:
  "Count example_world example_m (Some example_count_query) (Some 42) [''id''] =
     ([SqlxIn ''SELECT COUNT(id) FROM yii_user WHERE id > ? LIMIT 50'' [VInt 3],
       DbGet ''SELECT COUNT(id) FROM yii_user WHERE id > ? LIMIT 50'' [VInt 3]],
      Some [(''select'', VStr ''COUNT(id)''), (''where'', VStr ''id > ?''), (''limit'', VInt 50),
            (''binds'', VSlice [VInt 3])],
      Some 0,
      Inr (Some ''dial tcp: connection refused''))"
  by (simp add: Count_def getDB_def count_select_def example_count_query_def build_defs
      example_world_def example_m_def)

lemma FindOne_example:
  "FindOne example_world example_m (Some example_count_query) =
     ([SqlxIn ''SELECT name FROM yii_user WHERE id > ? LIMIT 1'' [VInt 3],
       DbGet ''SELECT name FROM yii_user WHERE id > ? LIMIT 1'' [VInt 3],
       LogError [''[MySQL] FindOne Error: '', ''dial tcp: connection refused'']],
      Some [(''select'', VStr ''name''), (''where'', VStr ''id > ?''), (''limit'', VInt 1),
            (''binds'', VSlice [VInt 3])],
      Inr (Some ''dial tcp: connection refused''))"
  by (simp add: FindOne_def getDB_def example_count_query_def build_defs
      log_unless_no_rows_def no_rows_def example_world_def example_m_def)

lemma Count_FindOne_allocated:
  assumes "dbmap w (dbname m)"
  shows "(\<exists>q'. fst (snd (Count w m (Some q) data columns)) = Some q'
            \<and> map_of q' = (map_of q)(''select'' \<mapsto> VStr (count_select columns))
            \<and> (\<forall>sql binds. buildQuery w m q' = Inr (sql, binds) \<longrightarrow>
                  take 1 (fst (Count w m (Some q) data columns)) = [SqlxIn sql binds]
                  \<and> take (length (''SELECT '' @ count_select columns)) sql =
                      ''SELECT '' @ count_select columns))
       \<and> count_select [] = ''COUNT(*)''
       \<and> count_select (c # cs) = ''COUNT('' @ c @ '')''
       \<and> (\<exists>q'. fst (snd (FindOne w m (Some q))) = Some q'
            \<and> map_of q' = (map_of q)(''limit'' \<mapsto> VInt 1)
            \<and> (\<forall>sql binds. buildQuery w m q' = Inr (sql, binds) \<longrightarrow>
                  take 1 (fst (FindOne w m (Some q))) = [SqlxIn sql binds]
                  \<and> (\<exists>pre. sql = pre @ '' LIMIT 1'')))"
proof (intro conjI)
  let ?q = "assign ''select'' (VStr (count_select columns)) q"
  have "fst (snd (Count w m (Some q) data columns)) = Some ?q"
    by (simp add: Count_registered [OF assms] Let_def split: sum.splits prod.splits option.splits)
  moreover have "map_of ?q = (map_of q)(''select'' \<mapsto> VStr (count_select columns))"
    by (rule map_of_assign)
  moreover have "\<forall>sql binds. buildQuery w m ?q = Inr (sql, binds) \<longrightarrow>
                  take 1 (fst (Count w m (Some q) data columns)) = [SqlxIn sql binds]
                  \<and> take (length (''SELECT '' @ count_select columns)) sql =
                      ''SELECT '' @ count_select columns"
  proof (intro allI impI conjI)
    fix sql binds assume b: "buildQuery w m ?q = Inr (sql, binds)"
    then show "take 1 (fst (Count w m (Some q) data columns)) = [SqlxIn sql binds]"
      by (simp add: Count_registered [OF assms] Let_def split: option.splits)
    show "take (length (''SELECT '' @ count_select columns)) sql = ''SELECT '' @ count_select columns"
      by (rule buildQuery_select_prefix [OF b str_at_assign])
  qed
  ultimately show "\<exists>q'. fst (snd (Count w m (Some q) data columns)) = Some q'
            \<and> map_of q' = (map_of q)(''select'' \<mapsto> VStr (count_select columns))
            \<and> (\<forall>sql binds. buildQuery w m q' = Inr (sql, binds) \<longrightarrow>
                  take 1 (fst (Count w m (Some q) data columns)) = [SqlxIn sql binds]
                  \<and> take (length (''SELECT '' @ count_select columns)) sql =
                      ''SELECT '' @ count_select columns)"
    by blast
next
  show "count_select [] = ''COUNT(*)''" by (simp add: count_select_def)
  show "count_select (c # cs) = ''COUNT('' @ c @ '')''" by (simp add: count_select_def)
next
  let ?q = "assign ''limit'' (VInt 1) q"
  have "fst (snd (FindOne w m (Some q))) = Some ?q"
    by (simp add: FindOne_registered [OF assms] Let_def split: sum.splits prod.splits)
  moreover have "map_of ?q = (map_of q)(''limit'' \<mapsto> VInt 1)"
    by (rule map_of_assign)
  moreover have "\<forall>sql binds. buildQuery w m ?q = Inr (sql, binds) \<longrightarrow>
                  take 1 (fst (FindOne w m (Some q))) = [SqlxIn sql binds]
                  \<and> (\<exists>pre. sql = pre @ '' LIMIT 1'')"
  proof (intro allI impI conjI)
    fix sql binds assume b: "buildQuery w m ?q = Inr (sql, binds)"
    then show "take 1 (fst (FindOne w m (Some q))) = [SqlxIn sql binds]"
      by (simp add: FindOne_registered [OF assms] Let_def)
    from buildQuery_limit_suffix [OF b int_at_assign]
    show "\<exists>pre. sql = pre @ '' LIMIT 1''" by (simp add: fmt_d_1)
  qed
  ultimately show "\<exists>q'. fst (snd (FindOne w m (Some q))) = Some q'
            \<and> map_of q' = (map_of q)(''limit'' \<mapsto> VInt 1)
            \<and> (\<forall>sql binds. buildQuery w m q' = Inr (sql, binds) \<longrightarrow>
                  take 1 (fst (FindOne w m (Some q))) = [SqlxIn sql binds]
                  \<and> (\<exists>pre. sql = pre @ '' LIMIT 1''))"
    by blast
qed

lemma Count_returning:
  assumes "Count w m query (Some old) columns = (tr, q', d', Inr err)"
  shows "\<exists>sql binds stored.
           tr = [SqlxIn sql binds, DbGet (fst (sqlx_In w sql binds)) (snd (sqlx_In w sql binds))]
         \<and> db_Get w [SqlxIn sql binds] (fst (sqlx_In w sql binds)) (snd (sqlx_In w sql binds)) =
             (stored, err)
         \<and> d' = Some (case stored of Some (VInt n) \<Rightarrow> n | _ \<Rightarrow> 0)
         \<and> (stored = None \<longrightarrow> d' = Some 0)"
proof -
  from assms have reg: "dbmap w (dbname m)"
    by (auto simp: Count_def getDB_def split: if_splits)
  from assms reg obtain q where q: "query = Some q"
    by (cases query) (auto simp: Count_def getDB_registered)
  let ?q = "assign ''select'' (VStr (count_select columns)) q"
  from assms obtain sql binds where b: "buildQuery w m ?q = Inr (sql, binds)"
    unfolding q Count_registered [OF reg] Let_def
    by (cases "buildQuery w m ?q") auto
  obtain stored e where g: "db_Get w [SqlxIn sql binds] (fst (sqlx_In w sql binds))
      (snd (sqlx_In w sql binds)) = (stored, e)"
    by (cases "db_Get w [SqlxIn sql binds] (fst (sqlx_In w sql binds)) (snd (sqlx_In w sql binds))")
  from assms have "tr = [SqlxIn sql binds, DbGet (fst (sqlx_In w sql binds)) (snd (sqlx_In w sql binds))]"
    and "d' = Some (case stored of Some (VInt n) \<Rightarrow> n | _ \<Rightarrow> 0)" and "err = e"
    unfolding q Count_registered [OF reg] Let_def b by (simp_all add: g)
  with g show ?thesis by (auto split: option.splits)
qed

section \<open>Which statements pass through the expander\<close>

lemma exec_In_take2:
  "take 2 (fst (exec_In w [] tag sql binds)) =
     [SqlxIn sql binds, DbExec (fst (sqlx_In w sql binds)) (snd (sqlx_In w sql binds))]"
  by (simp add: exec_In_def split: prod.splits sum.splits)

lemma Update_take2:
  assumes "dbmap w (dbname m)" and "buildUpdate w m Q D = Inr (sql, binds)"
  shows "take 2 (fst (Update w m Q D)) =
     [SqlxIn sql binds, DbExec (fst (sqlx_In w sql binds)) (snd (sqlx_In w sql binds))]"
  by (simp add: Update_def getDB_registered [OF assms(1)] assms(2) exec_In_take2)

lemma Delete_take2:
  assumes "dbmap w (dbname m)" and "buildDelete w m Q = Inr (sql, binds)"
  shows "take 2 (fst (Delete w m Q)) =
     [SqlxIn sql binds, DbExec (fst (sqlx_In w sql binds)) (snd (sqlx_In w sql binds))]"
  by (simp add: Delete_def getDB_registered [OF assms(1)] assms(2) exec_In_take2)

lemma Count_take2:
  assumes "dbmap w (dbname m)"
    and "buildQuery w m (assign ''select'' (VStr (count_select columns)) q) = Inr (sql, binds)"
  shows "take 2 (fst (Count w m (Some q) data columns)) =
     [SqlxIn sql binds, DbGet (fst (sqlx_In w sql binds)) (snd (sqlx_In w sql binds))]"
  by (simp add: Count_registered [OF assms(1)] assms(2) Let_def split: option.splits)

lemma FindOne_take2:
  assumes "dbmap w (dbname m)"
    and "buildQuery w m (assign ''limit'' (VInt 1) q) = Inr (sql, binds)"
  shows "take 2 (fst (FindOne w m (Some q))) =
     [SqlxIn sql binds, DbGet (fst (sqlx_In w sql binds)) (snd (sqlx_In w sql binds))]"
  by (simp add: FindOne_registered [OF assms(1)] assms(2) Let_def)

lemma Find_take2:
  assumes "dbmap w (dbname m)" and "buildQuery w m Q = Inr (sql, binds)"
  shows "take 2 (fst (Find w m Q)) =
     [SqlxIn sql binds, DbSelect (fst (sqlx_In w sql binds)) (snd (sqlx_In w sql binds))]"
  by (simp add: Find_def getDB_registered [OF assms(1)] assms(2) Let_def split: prod.splits)

lemma tx_exec_In_Inr:
  "tx_exec_In w tr (Inr (sql, binds)) =
     (tr @ [SqlxIn sql binds,
            TxExec (fst (sqlx_In w sql binds)) (snd (sqlx_In w sql binds))
              (tx_Exec w (tr @ [SqlxIn sql binds]) (fst (sqlx_In w sql binds))
                 (snd (sqlx_In w sql binds)))],
      Inr (tx_Exec w (tr @ [SqlxIn sql binds]) (fst (sqlx_In w sql binds))
             (snd (sqlx_In w sql binds))))"
  by (simp add: tx_exec_In_def Let_def split: prod.splits)

lemma tx_exec_Inr:
  "tx_exec w tr (Inr (sql, binds)) =
     (tr @ [TxExec sql binds (tx_Exec w tr sql binds)], Inr (tx_Exec w tr sql binds))"
  by (simp add: tx_exec_def Let_def)

lemma tx_entry_update:
  assumes "update_arm w m opt = Inr (sql, binds)"
  shows "tx_entry w m tr err (''update'', VX opt) =
     (tr @ [SqlxIn sql binds,
            TxExec (fst (sqlx_In w sql binds)) (snd (sqlx_In w sql binds))
              (tx_Exec w (tr @ [SqlxIn sql binds]) (fst (sqlx_In w sql binds))
                 (snd (sqlx_In w sql binds)))],
      Inr (tx_Exec w (tr @ [SqlxIn sql binds]) (fst (sqlx_In w sql binds))
             (snd (sqlx_In w sql binds))))"
  by (simp add: tx_entry_def as_X_def assms tx_exec_In_Inr)

lemma tx_entry_delete:
  assumes "buildDelete w m opt = Inr (sql, binds)"
  shows "tx_entry w m tr err (''delete'', VX opt) =
     (tr @ [SqlxIn sql binds,
            TxExec (fst (sqlx_In w sql binds)) (snd (sqlx_In w sql binds))
              (tx_Exec w (tr @ [SqlxIn sql binds]) (fst (sqlx_In w sql binds))
                 (snd (sqlx_In w sql binds)))],
      Inr (tx_Exec w (tr @ [SqlxIn sql binds]) (fst (sqlx_In w sql binds))
             (snd (sqlx_In w sql binds))))"
  by (simp add: tx_entry_def as_X_def assms tx_exec_In_Inr)

lemma buildQuery_FindAll_query:
  "buildQuery w m (FindAll_query columns) =
     Inr (''SELECT '' @ (if length columns > 0 then Join columns '','' else ''*'') @
            '' FROM '' @ getPrefix w m @ Table m, [])"
  by (simp add: FindAll_query_def buildQuery_def and_then_def select_clause_def query_table_def
      from_clause_def string_clause_def int_clause_def query_binds_def as_string_def)

lemma SqlxIn_notin_log: "SqlxIn s b \<notin> set (log_unless_no_rows tag err)"
  by (simp add: log_unless_no_rows_def split: option.splits)

lemma FindAll_registered:
  assumes "dbmap w (dbname m)" and "buildQuery w m (FindAll_query columns) = Inr (sql, binds)"
  shows "FindAll w m columns =
     (DbSelect sql binds # log_unless_no_rows ''[MySQL] FindAll Error: '' (db_Select w [] sql binds),
      Inr (db_Select w [] sql binds))"
  by (simp add: FindAll_def getDB_registered [OF assms(1)] assms(2) Let_def)

lemma FindAll_example:
  "FindAll example_world example_m [''id'', ''name''] =
     ([DbSelect ''SELECT id,name FROM yii_user'' []], Inr None)"
  by (simp add: FindAll_def FindAll_query_def getDB_def build_defs log_unless_no_rows_def
      example_world_def example_m_def)

lemma expand_In_example:
  "expand_In ''UPDATE yii_user SET price = price * ? + ?,name = ? WHERE id IN ?''
      [VInt 2, VInt 100, VStr ''x'', VSlice [VInt 1, VInt 2]] =
     (''UPDATE yii_user SET price = price * ? + ?,name = ? WHERE id IN (?,?)'',
      [VInt 2, VInt 100, VStr ''x'', VInt 1, VInt 2])"
  by simp

lemma Update_example:
  "Update example_world example_m example_condition example_data =
     ([SqlxIn ''UPDATE yii_user SET price = price * ? + ?,name = ? WHERE id IN ?''
         [VInt 2, VInt 100, VStr ''x'', VSlice [VInt 1, VInt 2]],
       DbExec ''UPDATE yii_user SET price = price * ? + ?,name = ? WHERE id IN (?,?)''
         [VInt 2, VInt 100, VStr ''x'', VInt 1, VInt 2]],
      Inr (1, None))"
proof -
  have In: "sqlx_In example_world = expand_In" by (simp add: example_world_def)
  have Ex: "db_Exec example_world = (\<lambda>tr sql binds. Inr (7, 1))" by (simp add: example_world_def)
  show ?thesis
    unfolding Update_def getDB_registered [OF example_registered] buildUpdate_example exec_In_def
      In Ex
    by (simp only: prod.case sum.case expand_In_example append_Nil)
qed

text \<open>
  Claim C2, as amended.  With a registered handle, \<open>Update\<close>, \<open>Delete\<close>, \<open>Count\<close>,
  \<open>FindOne\<close> and \<open>Find\<close>, and the \<open>update\<close> and \<open>delete\<close> arms of \<open>DoTransactions\<close>,
  call \<open>sqlx.In\<close> on the pair that the builder produced and hand what it returns to the
  driver as their next call.  \<open>FindAll\<close> does not: the pair that \<open>buildQuery\<close> produced,
  whose bind list is always empty, goes to the driver as it is, and \<open>sqlx.In\<close> is never
  called.
\<close>

theorem expander_before_driver:
  assumes "dbmap w (dbname m)"
  shows "(\<forall>sql binds. buildUpdate w m Q D = Inr (sql, binds) \<longrightarrow>
            take 2 (fst (Update w m Q D)) =
              [SqlxIn sql binds, DbExec (fst (sqlx_In w sql binds)) (snd (sqlx_In w sql binds))])
       \<and> (\<forall>sql binds. buildDelete w m Q = Inr (sql, binds) \<longrightarrow>
            take 2 (fst (Delete w m Q)) =
              [SqlxIn sql binds, DbExec (fst (sqlx_In w sql binds)) (snd (sqlx_In w sql binds))])
       \<and> (\<forall>sql binds.
            buildQuery w m (assign ''select'' (VStr (count_select columns)) Q) = Inr (sql, binds) \<longrightarrow>
            take 2 (fst (Count w m (Some Q) data columns)) =
              [SqlxIn sql binds, DbGet (fst (sqlx_In w sql binds)) (snd (sqlx_In w sql binds))])
       \<and> (\<forall>sql binds. buildQuery w m (assign ''limit'' (VInt 1) Q) = Inr (sql, binds) \<longrightarrow>
            take 2 (fst (FindOne w m (Some Q))) =
              [SqlxIn sql binds, DbGet (fst (sqlx_In w sql binds)) (snd (sqlx_In w sql binds))])
       \<and> (\<forall>sql binds. buildQuery w m Q = Inr (sql, binds) \<longrightarrow>
            take 2 (fst (Find w m Q)) =
              [SqlxIn sql binds, DbSelect (fst (sqlx_In w sql binds)) (snd (sqlx_In w sql binds))])
       \<and> (\<forall>sql binds. update_arm w m opt = Inr (sql, binds) \<longrightarrow>
            fst (tx_entry w m tr err (''update'', VX opt)) =
              tr @ [SqlxIn sql binds,
                    TxExec (fst (sqlx_In w sql binds)) (snd (sqlx_In w sql binds))
                      (tx_Exec w (tr @ [SqlxIn sql binds]) (fst (sqlx_In w sql binds))
                         (snd (sqlx_In w sql binds)))])
       \<and> (\<forall>sql binds. buildDelete w m opt = Inr (sql, binds) \<longrightarrow>
            fst (tx_entry w m tr err (''delete'', VX opt)) =
              tr @ [SqlxIn sql binds,
                    TxExec (fst (sqlx_In w sql binds)) (snd (sqlx_In w sql binds))
                      (tx_Exec w (tr @ [SqlxIn sql binds]) (fst (sqlx_In w sql binds))
                         (snd (sqlx_In w sql binds)))])
       \<and> (\<exists>sql. buildQuery w m (FindAll_query columns) = Inr (sql, [])
              \<and> take 1 (fst (FindAll w m columns)) = [DbSelect sql []]
              \<and> (\<forall>s b. SqlxIn s b \<notin> set (fst (FindAll w m columns))))"
proof (intro conjI allI impI)
  fix sql binds
  { assume "buildUpdate w m Q D = Inr (sql, binds)"
    then show "take 2 (fst (Update w m Q D)) =
              [SqlxIn sql binds, DbExec (fst (sqlx_In w sql binds)) (snd (sqlx_In w sql binds))]"
      by (rule Update_take2 [OF assms]) }
  { assume "buildDelete w m Q = Inr (sql, binds)"
    then show "take 2 (fst (Delete w m Q)) =
              [SqlxIn sql binds, DbExec (fst (sqlx_In w sql binds)) (snd (sqlx_In w sql binds))]"
      by (rule Delete_take2 [OF assms]) }
  { assume "buildQuery w m (assign ''select'' (VStr (count_select columns)) Q) = Inr (sql, binds)"
    then show "take 2 (fst (Count w m (Some Q) data columns)) =
              [SqlxIn sql binds, DbGet (fst (sqlx_In w sql binds)) (snd (sqlx_In w sql binds))]"
      by (rule Count_take2 [OF assms]) }
  { assume "buildQuery w m (assign ''limit'' (VInt 1) Q) = Inr (sql, binds)"
    then show "take 2 (fst (FindOne w m (Some Q))) =
              [SqlxIn sql binds, DbGet (fst (sqlx_In w sql binds)) (snd (sqlx_In w sql binds))]"
      by (rule FindOne_take2 [OF assms]) }
  { assume "buildQuery w m Q = Inr (sql, binds)"
    then show "take 2 (fst (Find w m Q)) =
              [SqlxIn sql binds, DbSelect (fst (sqlx_In w sql binds)) (snd (sqlx_In w sql binds))]"
      by (rule Find_take2 [OF assms]) }
  { assume "update_arm w m opt = Inr (sql, binds)"
    then show "fst (tx_entry w m tr err (''update'', VX opt)) =
              tr @ [SqlxIn sql binds,
                    TxExec (fst (sqlx_In w sql binds)) (snd (sqlx_In w sql binds))
                      (tx_Exec w (tr @ [SqlxIn sql binds]) (fst (sqlx_In w sql binds))
                         (snd (sqlx_In w sql binds)))]"
      by (simp add: tx_entry_update) }
  { assume "buildDelete w m opt = Inr (sql, binds)"
    then show "fst (tx_entry w m tr err (''delete'', VX opt)) =
              tr @ [SqlxIn sql binds,
                    TxExec (fst (sqlx_In w sql binds)) (snd (sqlx_In w sql binds))
                      (tx_Exec w (tr @ [SqlxIn sql binds]) (fst (sqlx_In w sql binds))
                         (snd (sqlx_In w sql binds)))]"
      by (simp add: tx_entry_delete) }
next
  let ?sql = "''SELECT '' @ (if length columns > 0 then Join columns '','' else ''*'') @
            '' FROM '' @ getPrefix w m @ Table m"
  have b: "buildQuery w m (FindAll_query columns) = Inr (?sql, [])"
    by (rule buildQuery_FindAll_query)
  have "take 1 (fst (FindAll w m columns)) = [DbSelect ?sql []]"
    and "\<forall>s b. SqlxIn s b \<notin> set (fst (FindAll w m columns))"
    unfolding FindAll_registered [OF assms b] by (simp_all add: SqlxIn_notin_log)
  with b show "\<exists>sql. buildQuery w m (FindAll_query columns) = Inr (sql, [])
              \<and> take 1 (fst (FindAll w m columns)) = [DbSelect sql []]
              \<and> (\<forall>s b. SqlxIn s b \<notin> set (fst (FindAll w m columns)))"
    by blast
qed

theorem expander_before_driver_witness:
  "dbmap example_world (dbname example_m)
   \<and> buildUpdate example_world example_m example_condition example_data =
       Inr (''UPDATE yii_user SET price = price * ? + ?,name = ? WHERE id IN ?'',
            [VInt 2, VInt 100, VStr ''x'', VSlice [VInt 1, VInt 2]])
   \<and> take 2 (fst (Update example_world example_m example_condition example_data)) =
       [SqlxIn ''UPDATE yii_user SET price = price * ? + ?,name = ? WHERE id IN ?''
          [VInt 2, VInt 100, VStr ''x'', VSlice [VInt 1, VInt 2]],
        DbExec ''UPDATE yii_user SET price = price * ? + ?,name = ? WHERE id IN (?,?)''
          [VInt 2, VInt 100, VStr ''x'', VInt 1, VInt 2]]
   \<and> take 1 (fst (FindAll example_world example_m [''id'', ''name''])) =
       [DbSelect ''SELECT id,name FROM yii_user'' []]"
  using expander_before_driver [OF example_registered, of example_condition example_data]
    example_registered buildUpdate_example Update_example FindAll_example
  by simp

text \<open>The claim as stated fails for \<open>FindAll\<close>: its run has no call of the expander.\<close>

theorem FindAll_expander_counterexample:
  "fst (FindAll example_world example_m [''id'', ''name'']) =
     [DbSelect ''SELECT id,name FROM yii_user'' []]"
  by (simp add: FindAll_example)

section \<open>The transaction coordinator\<close>

lemma failures_append [simp]: "failures (xs @ ys) = failures xs @ failures ys"
  by (simp add: failures_def)

lemma executed_append [simp]: "executed (xs @ ys) = executed xs @ executed ys"
  by (simp add: executed_def)

lemma failures_simps [simp]:
  "failures [] = []" "failures (SqlxIn s b # tr) = failures tr"
  "failures (TxExec s b None # tr) = failures tr"
  "failures (TxExec s b (Some e) # tr) = e # failures tr"
  "failures (DbBegin x # tr) = failures tr"
  "failures (TxCommit # tr) = failures tr"
  "failures (TxRollback # tr) = failures tr"
  "failures (LogError l # tr) = failures tr"
  by (simp_all add: failures_def)

lemma executed_simps [simp]:
  "executed [] = []" "executed (SqlxIn s b # tr) = executed tr"
  "executed (TxExec s b r # tr) = (s, b) # executed tr"
  "executed (DbBegin x # tr) = executed tr"
  "executed (TxCommit # tr) = executed tr"
  "executed (TxRollback # tr) = executed tr"
  "executed (LogError l # tr) = executed tr"
  by (simp_all add: executed_def)

text \<open>What one round of the loop adds to the trace when it does not panic.\<close>

lemma tx_exec_step:
  assumes "tx_exec w tr built = (tr', Inr err')"
  shows "\<exists>s b. tr' = tr @ [TxExec s b err'] \<and> built_statement built = [(s, b)]"
  using assms by (cases built) (auto simp: tx_exec_def built_statement_def Let_def)

lemma tx_exec_In_step:
  assumes "tx_exec_In w tr built = (tr', Inr err')"
  shows "\<exists>s0 b0 s b. tr' = tr @ [SqlxIn s0 b0, TxExec s b err'] \<and>
           expanded_statement w built = [(s, b)]"
  using assms
  by (cases built) (auto simp: tx_exec_In_def expanded_statement_def Let_def split: prod.splits)

lemma tx_entry_step:
  assumes "tx_entry w m tr err kv = (tr', Inr err')"
  shows "(tr' = tr \<and> err' = err \<and> entry_statement w m kv = [] \<and> \<not> recognised (fst kv))
       \<or> (\<exists>new s b. tr' = tr @ new @ [TxExec s b err'] \<and> list_all loop_event new \<and>
             executed new = [] \<and> failures new = [] \<and> entry_statement w m kv = [(s, b)])"
proof -
  obtain key v where kv: "kv = (key, v)" by (cases kv)
  from assms obtain opt where v: "v = VX opt"
    unfolding kv by (cases v) (auto simp: tx_entry_def as_X_def)
  consider (i) "key = ''insert''" | (b) "key = ''batchInsert''" | (u) "key = ''update''"
    | (d) "key = ''delete''" | (other) "\<not> recognised key"
    by (auto simp: recognised_def)
  then show ?thesis
  proof cases
    case i
    with assms have "tx_exec w tr (insert_arm w m opt) = (tr', Inr err')"
      by (simp add: kv v tx_entry_def as_X_def)
    from tx_exec_step [OF this] i show ?thesis
      by (auto simp: kv v entry_statement_def intro: exI [of _ "[]"])
  next
    case b
    with assms have "tx_exec w tr (batchInsert_arm w m opt) = (tr', Inr err')"
      by (simp add: kv v tx_entry_def as_X_def)
    from tx_exec_step [OF this] b show ?thesis
      by (auto simp: kv v entry_statement_def intro: exI [of _ "[]"])
  next
    case u
    with assms have "tx_exec_In w tr (update_arm w m opt) = (tr', Inr err')"
      by (simp add: kv v tx_entry_def as_X_def)
    from tx_exec_In_step [OF this] obtain s0 b0 s b where
      "tr' = tr @ [SqlxIn s0 b0] @ [TxExec s b err']"
      "expanded_statement w (update_arm w m opt) = [(s, b)]" by auto
    with u show ?thesis
      by (intro disjI2 exI [of _ "[SqlxIn s0 b0]"] exI [of _ s] exI [of _ b])
        (simp add: kv v entry_statement_def)
  next
    case d
    with assms have "tx_exec_In w tr (buildDelete w m opt) = (tr', Inr err')"
      by (simp add: kv v tx_entry_def as_X_def)
    from tx_exec_In_step [OF this] obtain s0 b0 s b where
      "tr' = tr @ [SqlxIn s0 b0] @ [TxExec s b err']"
      "expanded_statement w (buildDelete w m opt) = [(s, b)]" by auto
    with d show ?thesis
      by (intro disjI2 exI [of _ "[SqlxIn s0 b0]"] exI [of _ s] exI [of _ b])
        (simp add: kv v entry_statement_def)
  next
    case other
    with assms show ?thesis
      by (auto simp: kv v tx_entry_def as_X_def entry_statement_def recognised_def)
  qed
qed

lemma tx_loop_shape:
  assumes "tx_loop w m tr None ops = (tr', Inr r)"
  shows "\<exists>body. tr' = tr @ body \<and> list_all loop_event body \<and>
           (case r of
              None \<Rightarrow> failures body = [] \<and>
                       executed body = concat (map (entry_statement w m) ops)
            | Some e \<Rightarrow> (\<exists>pre s b. body = pre @ [TxExec s b (Some e)] \<and> failures pre = []) \<and>
                        (\<exists>n. executed body = take n (concat (map (entry_statement w m) ops))))"
  using assms
proof (induction ops arbitrary: tr)
  case Nil
  then show ?case by auto
next
  case (Cons kv ops)
  from Cons.prems obtain tr1 e1 where step: "tx_entry w m tr None kv = (tr1, Inr e1)"
    by (cases "tx_entry w m tr None kv") (auto split: sum.splits)
  let ?rest = "concat (map (entry_statement w m) ops)"
  show ?case
  proof (cases e1)
    case None
    with Cons.prems step have loop: "tx_loop w m tr1 None ops = (tr', Inr r)" by simp
    from Cons.IH [OF loop] obtain body where
      body: "tr' = tr1 @ body" "list_all loop_event body"
      and r: "case r of
              None \<Rightarrow> failures body = [] \<and> executed body = ?rest
            | Some e \<Rightarrow> (\<exists>pre s b. body = pre @ [TxExec s b (Some e)] \<and> failures pre = []) \<and>
                        (\<exists>n. executed body = take n ?rest)"
      by blast
    from tx_entry_step [OF step] obtain first where
      first: "tr1 = tr @ first" "list_all loop_event first" "failures first = []"
        "executed first = entry_statement w m kv"
      unfolding None by (elim disjE exE conjE) (simp, force)
    show ?thesis
    proof (cases r)
      case None
      with r body first show ?thesis
        by (intro exI [of _ "first @ body"]) simp
    next
      case (Some e)
      with r obtain pre s b n where
        pre: "body = pre @ [TxExec s b (Some e)]" "failures pre = []"
        and n: "executed body = take n ?rest" by auto
      have ex: "executed (first @ body) =
              take (length (entry_statement w m kv) + n)
                (concat (map (entry_statement w m) (kv # ops)))"
        using first(4) n by simp
      have sh: "first @ body = (first @ pre) @ [TxExec s b (Some e)]"
        and fl: "failures (first @ pre) = []"
        using pre first(3) by simp_all
      have 1: "tr' = tr @ first @ body" using body(1) first(1) by simp
      have 2: "list_all loop_event (first @ body)" using body(2) first(2) by simp
      have 3: "\<exists>pre s b. first @ body = pre @ [TxExec s b (Some e)] \<and> failures pre = []"
        using sh fl by blast
      have 4: "\<exists>n. executed (first @ body) =
                 take n (concat (map (entry_statement w m) (kv # ops)))"
        using ex by blast
      from 1 2 3 4 show ?thesis
        unfolding Some by (intro exI [of _ "first @ body"]) simp
    qed
  next
    case (Some e)
    with Cons.prems step have res: "tr' = tr1" "r = Some e" by simp_all
    from tx_entry_step [OF step] obtain new s b where
      new: "tr1 = tr @ new @ [TxExec s b (Some e)]" "list_all loop_event new"
        "executed new = []" "failures new = []" "entry_statement w m kv = [(s, b)]"
      unfolding Some by auto
    have "executed (new @ [TxExec s b (Some e)]) =
            take 1 (concat (map (entry_statement w m) (kv # ops)))"
      using new(3,5) by simp
    then have 4: "\<exists>n. executed (new @ [TxExec s b (Some e)]) =
                 take n (concat (map (entry_statement w m) (kv # ops)))"
      by blast
    have 3: "\<exists>pre s' b'. new @ [TxExec s b (Some e)] = pre @ [TxExec s' b' (Some e)] \<and>
               failures pre = []"
      using new(4) by blast
    have 2: "list_all loop_event (new @ [TxExec s b (Some e)])" using new(2) by simp
    have 1: "tr' = tr @ new @ [TxExec s b (Some e)]" using res(1) new(1) by simp
    from 1 2 3 4 show ?thesis
      unfolding res(2) by (intro exI [of _ "new @ [TxExec s b (Some e)]"]) simp
  qed
qed










lemma DoTransactions_begun:
  assumes "dbmap w (dbname m)" and "db_Begin w = None"
  shows "DoTransactions w m ops =
     (case tx_loop w m [DbBegin None] None ops of
        (tr', Inl p) \<Rightarrow> (tr', Inl p)
      | (tr', Inr (Some e)) \<Rightarrow>
          (tr' @ [TxRollback, LogError [''[MySQL] DoTransactions Error: '', e]], Inr (Some e))
      | (tr', Inr None) \<Rightarrow> (tr' @ [TxCommit], Inr None))"
  by (simp add: DoTransactions_def getDB_registered [OF assms(1)] assms(2))

lemma loop_event_no_end:
  "list_all loop_event body \<Longrightarrow>
     TxCommit \<notin> set body \<and> TxRollback \<notin> set body \<and> filter is_begin body = []"
  by (induction body) (auto elim: loop_event.elims)



lemmas tx_defs = Let_def DoTransactions_def getDB_def tx_entry_def tx_exec_def tx_exec_In_def
  insert_arm_def batchInsert_arm_def update_arm_def opt_table_def opt_X_def as_X_def as_Xs_def
  buildInsert_def buildBatchInsert_def buildUpdate_def buildDelete_def table0_def index_X_def
  example_insert_def example_update_def example_delete_def
  example_condition_def example_data_def



lemma example_begin: "db_Begin example_world = None"
  by (simp add: example_world_def)






lemma tx_entry_skip:
  "\<not> recognised key \<Longrightarrow> tx_entry w m tr err (key, VX opt) = (tr, Inr err)"
  by (simp add: tx_entry_def as_X_def recognised_def)

lemma tx_entry_not_X:
  "\<not> is_X v \<Longrightarrow> tx_entry w m tr err (key, v) = (tr, Inl TypeAssertion)"
  by (cases v) (simp_all add: tx_entry_def as_X_def)

lemma tx_loop_skip:
  assumes "\<not> recognised key"
  shows "tx_loop w m tr None (pre @ (key, VX opt) # post) = tx_loop w m tr None (pre @ post)"
proof (induction pre arbitrary: tr)
  case Nil
  show ?case by (simp add: tx_entry_skip [OF assms])
next
  case (Cons kv pre)
  show ?case
  proof (cases "tx_entry w m tr None kv")
    case (Pair tr1 res)
    then show ?thesis by (cases res) (simp_all add: Cons.IH)
  qed
qed

lemma DoTransactions_skip:
  assumes "\<not> recognised key"
  shows "DoTransactions w m (pre @ (key, VX opt) # post) = DoTransactions w m (pre @ post)"
proof (cases "dbmap w (dbname m)")
  case True
  show ?thesis
  proof (cases "db_Begin w")
    case None
    show ?thesis
      unfolding DoTransactions_begun [OF True None] tx_loop_skip [OF assms] ..
  next
    case (Some e)
    then show ?thesis by (simp add: DoTransactions_def getDB_registered [OF True])
  qed
next
  case False
  then show ?thesis by (simp add: DoTransactions_def getDB_def)
qed

lemma example_noop_unrecognised: "\<not> recognised ''noop''"
  by (simp add: recognised_def)

section \<open>What Count and FindOne do to their arguments\<close>

lemma getDB_unregistered:
  "\<not> dbmap w (dbname m) \<Longrightarrow>
     getDB w m = ([LogError [''[MySQL] Database Error: '' @ DB m @ '' is not initialized'']],
                  Inl (NotInitialized (DB m)))"
  by (simp add: getDB_def)

lemma Count_unregistered:
  "\<not> dbmap w (dbname m) \<Longrightarrow>
     Count w m query data columns =
       ([LogError [''[MySQL] Database Error: '' @ DB m @ '' is not initialized'']],
        query, data, Inl (NotInitialized (DB m)))"
  by (simp add: Count_def getDB_unregistered)

lemma FindOne_unregistered:
  "\<not> dbmap w (dbname m) \<Longrightarrow>
     FindOne w m query =
       ([LogError [''[MySQL] Database Error: '' @ DB m @ '' is not initialized'']],
        query, Inl (NotInitialized (DB m)))"
  by (simp add: FindOne_def getDB_unregistered)

lemma Count_nil_map:
  "dbmap w (dbname m) \<Longrightarrow> Count w m None data columns = ([], None, data, Inl NilMapWrite)"
  by (simp add: Count_def getDB_registered)

lemma FindOne_nil_map:
  "dbmap w (dbname m) \<Longrightarrow> FindOne w m None = ([], None, Inl NilMapWrite)"
  by (simp add: FindOne_def getDB_registered)

lemma Count_typed:
  assumes "dbmap w (dbname m)"
    and "typed_query (assign ''select'' (VStr (count_select columns)) q)"
  shows "\<exists>tr q' n err. \<forall>old. Count w m (Some q) (Some old) columns = (tr, q', Some n, Inr err)"
proof -
  from buildQuery_typed [OF assms(2), of w m] obtain sql binds where
    "buildQuery w m (assign ''select'' (VStr (count_select columns)) q) = Inr (sql, binds)"
    by fastforce
  then show ?thesis
    by (simp add: Count_registered [OF assms(1)] Let_def)
qed

lemma Count_panic:
  assumes "Count w m query (Some old) columns = (tr, q', d', Inl p)"
  shows "d' = Some old \<and> filter is_get tr = []"
proof (cases "dbmap w (dbname m)")
  case False
  with assms show ?thesis by (auto simp: Count_unregistered)
next
  case True
  show ?thesis
  proof (cases query)
    case None
    with assms True show ?thesis by (auto simp: Count_nil_map)
  next
    case (Some q)
    with assms show ?thesis
      unfolding Some Count_registered [OF True] Let_def
      by (cases "buildQuery w m (assign ''select'' (VStr (count_select columns)) q)") auto
  qed
qed

text \<open>
  Claim C10, as amended.  The destination is a pointer that is not nil.  With a registered
  handle, an allocated map and well-typed keys, \<open>Count\<close> returns, and what it leaves in
  the destination does not depend on what the destination held.  Whenever \<open>Count\<close> returns, with or without an error from \<open>db.Get\<close>,
  it has assigned the local \<open>count\<close> to the destination: the value \<open>db.Get\<close> stored in
  \<open>count\<close>, and 0 when it stored nothing.  A call that panics does so before \<open>db.Get\<close> is
  called and leaves the destination as it was.
\<close>

theorem Count_assigns_destination:
  "(dbmap w (dbname m) \<and> typed_query (assign ''select'' (VStr (count_select columns)) q) \<longrightarrow>
      (\<exists>tr q' n err. \<forall>old. Count w m (Some q) (Some old) columns = (tr, q', Some n, Inr err)))
   \<and> (\<forall>tr q' d' err. Count w m query (Some old) columns = (tr, q', d', Inr err) \<longrightarrow>
        (\<exists>sql binds stored.
           tr = [SqlxIn sql binds, DbGet (fst (sqlx_In w sql binds)) (snd (sqlx_In w sql binds))]
         \<and> db_Get w [SqlxIn sql binds] (fst (sqlx_In w sql binds)) (snd (sqlx_In w sql binds)) =
             (stored, err)
         \<and> d' = Some (case stored of Some (VInt n) \<Rightarrow> n | _ \<Rightarrow> 0)
         \<and> (stored = None \<longrightarrow> d' = Some 0)))
   \<and> (\<forall>tr q' d' p. Count w m query (Some old) columns = (tr, q', d', Inl p) \<longrightarrow>
        d' = Some old \<and> filter is_get tr = [])"
proof (intro conjI allI impI)
  assume "dbmap w (dbname m) \<and> typed_query (assign ''select'' (VStr (count_select columns)) q)"
  then show "\<exists>tr q' n err. \<forall>old. Count w m (Some q) (Some old) columns = (tr, q', Some n, Inr err)"
    using Count_typed [of w m columns q] by blast
next
  fix tr q' d' err
  assume "Count w m query (Some old) columns = (tr, q', d', Inr err)"
  then show "\<exists>sql binds stored.
           tr = [SqlxIn sql binds, DbGet (fst (sqlx_In w sql binds)) (snd (sqlx_In w sql binds))]
         \<and> db_Get w [SqlxIn sql binds] (fst (sqlx_In w sql binds)) (snd (sqlx_In w sql binds)) =
             (stored, err)
         \<and> d' = Some (case stored of Some (VInt n) \<Rightarrow> n | _ \<Rightarrow> 0)
         \<and> (stored = None \<longrightarrow> d' = Some 0)"
    by (rule Count_returning)
next
  fix tr q' d' p
  assume a: "Count w m query (Some old) columns = (tr, q', d', Inl p)"
  from Count_panic [OF a] show "d' = Some old" and "filter is_get tr = []" by simp_all
qed

lemma Count_store_then_fail_example:
  "Count example_world_store_then_fail example_m (Some example_count_query) (Some 42) [''id''] =
     ([SqlxIn ''SELECT COUNT(id) FROM yii_user WHERE id > ? LIMIT 50'' [VInt 3],
       DbGet ''SELECT COUNT(id) FROM yii_user WHERE id > ? LIMIT 50'' [VInt 3]],
      Some [(''select'', VStr ''COUNT(id)''), (''where'', VStr ''id > ?''), (''limit'', VInt 50),
            (''binds'', VSlice [VInt 3])],
      Some 5,
      Inr (Some ''driver: bad connection''))"
  by (simp add: Count_def getDB_def count_select_def example_count_query_def build_defs
      example_world_store_then_fail_def example_world_def example_m_def)

lemma Count_ill_typed_example:
  "Count example_world example_m (Some [(''where'', VInt 7)]) (Some 42) [] =
     ([], Some [(''where'', VInt 7), (''select'', VStr ''COUNT(*)'')], Some 42, Inl TypeAssertion)"
  by (simp add: Count_def getDB_def count_select_def build_defs example_world_def example_m_def)

lemma example_count_query_typed:
  "typed_query (assign ''select'' (VStr (count_select [''id''])) example_count_query)"
  by (simp add: typed_query_def typed_str_def typed_int_def typed_strings_def typed_slice_def
      example_count_query_def count_select_def)

theorem Count_assigns_destination_witness:
  "dbmap example_world (dbname example_m)
   \<and> typed_query (assign ''select'' (VStr (count_select [''id''])) example_count_query)
   \<and> Count example_world example_m (Some example_count_query) (Some 42) [''id''] =
     ([SqlxIn ''SELECT COUNT(id) FROM yii_user WHERE id > ? LIMIT 50'' [VInt 3],
       DbGet ''SELECT COUNT(id) FROM yii_user WHERE id > ? LIMIT 50'' [VInt 3]],
      Some [(''select'', VStr ''COUNT(id)''), (''where'', VStr ''id > ?''), (''limit'', VInt 50),
            (''binds'', VSlice [VInt 3])],
      Some 0,
      Inr (Some ''dial tcp: connection refused''))
   \<and> (\<exists>sql binds stored.
         db_Get example_world [SqlxIn sql binds] (fst (sqlx_In example_world sql binds))
            (snd (sqlx_In example_world sql binds)) =
           (stored, Some ''dial tcp: connection refused'')
       \<and> stored = None
       \<and> Some (0::int) = Some (case stored of Some (VInt n) \<Rightarrow> n | _ \<Rightarrow> 0))
   \<and> Count example_world example_m (Some [(''where'', VInt 7)]) (Some 42) [] =
     ([], Some [(''where'', VInt 7), (''select'', VStr ''COUNT(*)'')], Some 42, Inl TypeAssertion)
   \<and> filter is_get [] = []"
proof -
  have g: "\<And>tr sql binds. db_Get example_world tr sql binds =
             (None, Some ''dial tcp: connection refused'')"
    by (simp add: example_world_def)
  from Count_assigns_destination [of example_world example_m "[''id'']" example_count_query
      "Some example_count_query" 42]
    Count_assigns_destination [of example_world example_m "[]" "[]"
      "Some [(''where'', VInt 7)]" 42]
    example_registered example_count_query_typed Count_example Count_ill_typed_example g
  show ?thesis by simp
qed

text \<open>The claim as stated fails: a \<open>db.Get\<close> that scans 5 into \<open>count\<close> and then reports
  an error makes \<open>Count\<close> fail with 5, not 0, in the destination.\<close>

theorem Count_overwrite_zero_counterexample:
  "Count example_world_store_then_fail example_m (Some example_count_query) (Some 42) [''id''] =
     ([SqlxIn ''SELECT COUNT(id) FROM yii_user WHERE id > ? LIMIT 50'' [VInt 3],
       DbGet ''SELECT COUNT(id) FROM yii_user WHERE id > ? LIMIT 50'' [VInt 3]],
      Some [(''select'', VStr ''COUNT(id)''), (''where'', VStr ''id > ?''), (''limit'', VInt 50),
            (''binds'', VSlice [VInt 3])],
      Some 5,
      Inr (Some ''driver: bad connection''))"
  by (rule Count_store_then_fail_example)

text \<open>
  Claim C8, as amended.  With a registered handle and an allocated condition map, \<open>Count\<close>
  leaves the map with \<open>select\<close> set to \<open>COUNT(*)\<close>, or to \<open>COUNT(<column>)\<close> for the first
  column argument, whatever the caller had put there, and \<open>FindOne\<close> leaves it with
  \<open>limit\<close> set to 1; every other key is untouched, and the statement each of them sends on
  is built from the map so changed: it starts with \<open>SELECT COUNT(...)\<close>, respectively ends
  with \<open>LIMIT 1\<close>.  On Go's nil map both panic in the assignment and build nothing; with
  an unregistered handle both panic in \<open>getDB\<close> and leave the map as it was.
\<close>

theorem Count_FindOne_overwrite:
  "(dbmap w (dbname m) \<longrightarrow>
      (\<exists>q'. fst (snd (Count w m (Some q) data columns)) = Some q'
            \<and> map_of q' = (map_of q)(''select'' \<mapsto> VStr (count_select columns))
            \<and> (\<forall>sql binds. buildQuery w m q' = Inr (sql, binds) \<longrightarrow>
                  take 1 (fst (Count w m (Some q) data columns)) = [SqlxIn sql binds]
                  \<and> take (length (''SELECT '' @ count_select columns)) sql =
                      ''SELECT '' @ count_select columns))
       \<and> (\<exists>q'. fst (snd (FindOne w m (Some q))) = Some q'
            \<and> map_of q' = (map_of q)(''limit'' \<mapsto> VInt 1)
            \<and> (\<forall>sql binds. buildQuery w m q' = Inr (sql, binds) \<longrightarrow>
                  take 1 (fst (FindOne w m (Some q))) = [SqlxIn sql binds]
                  \<and> (\<exists>pre. sql = pre @ '' LIMIT 1'')))
       \<and> Count w m None data columns = ([], None, data, Inl NilMapWrite)
       \<and> FindOne w m None = ([], None, Inl NilMapWrite))
   \<and> count_select [] = ''COUNT(*)''
   \<and> count_select (c # cs) = ''COUNT('' @ c @ '')''
   \<and> (\<not> dbmap w (dbname m) \<longrightarrow>
        Count w m query data columns =
          ([LogError [''[MySQL] Database Error: '' @ DB m @ '' is not initialized'']],
           query, data, Inl (NotInitialized (DB m)))
      \<and> FindOne w m query =
          ([LogError [''[MySQL] Database Error: '' @ DB m @ '' is not initialized'']],
           query, Inl (NotInitialized (DB m))))"
proof (intro conjI impI)
  assume reg: "dbmap w (dbname m)"
  note old = Count_FindOne_allocated [OF reg, of q data columns c cs]
  from old show "\<exists>q'. fst (snd (Count w m (Some q) data columns)) = Some q'
            \<and> map_of q' = (map_of q)(''select'' \<mapsto> VStr (count_select columns))
            \<and> (\<forall>sql binds. buildQuery w m q' = Inr (sql, binds) \<longrightarrow>
                  take 1 (fst (Count w m (Some q) data columns)) = [SqlxIn sql binds]
                  \<and> take (length (''SELECT '' @ count_select columns)) sql =
                      ''SELECT '' @ count_select columns)"
    by (rule conjunct1)
  from old show "\<exists>q'. fst (snd (FindOne w m (Some q))) = Some q'
            \<and> map_of q' = (map_of q)(''limit'' \<mapsto> VInt 1)
            \<and> (\<forall>sql binds. buildQuery w m q' = Inr (sql, binds) \<longrightarrow>
                  take 1 (fst (FindOne w m (Some q))) = [SqlxIn sql binds]
                  \<and> (\<exists>pre. sql = pre @ '' LIMIT 1''))"
    by (elim conjE)
  show "Count w m None data columns = ([], None, data, Inl NilMapWrite)"
    by (rule Count_nil_map [OF reg])
  show "FindOne w m None = ([], None, Inl NilMapWrite)"
    by (rule FindOne_nil_map [OF reg])
next
  show "count_select [] = ''COUNT(*)''" by (simp add: count_select_def)
  show "count_select (c # cs) = ''COUNT('' @ c @ '')''" by (simp add: count_select_def)
next
  assume un: "\<not> dbmap w (dbname m)"
  show "Count w m query data columns =
          ([LogError [''[MySQL] Database Error: '' @ DB m @ '' is not initialized'']],
           query, data, Inl (NotInitialized (DB m)))"
    by (rule Count_unregistered [OF un])
  show "FindOne w m query =
          ([LogError [''[MySQL] Database Error: '' @ DB m @ '' is not initialized'']],
           query, Inl (NotInitialized (DB m)))"
    by (rule FindOne_unregistered [OF un])
qed

lemma example_unregistered: "\<not> dbmap example_world (dbname example_m_unregistered)"
  by (simp add: example_world_def example_m_unregistered_def dbname_def)

theorem Count_FindOne_overwrite_witness:
  "dbmap example_world (dbname example_m)
   \<and> map_of example_count_query ''select'' = Some (VStr ''name'')
   \<and> map_of example_count_query ''limit'' = Some (VInt 50)
   \<and> (\<exists>q'. fst (snd (Count example_world example_m (Some example_count_query) (Some 42) [''id'']))
              = Some q'
            \<and> map_of q' ''select'' = Some (VStr ''COUNT(id)''))
   \<and> (\<exists>q'. fst (snd (FindOne example_world example_m (Some example_count_query))) = Some q'
            \<and> map_of q' ''limit'' = Some (VInt 1))
   \<and> Count example_world example_m None (Some 42) [''id''] = ([], None, Some 42, Inl NilMapWrite)
   \<and> \<not> dbmap example_world (dbname example_m_unregistered)
   \<and> fst (snd (FindOne example_world example_m_unregistered (Some example_count_query))) =
       Some example_count_query"
  using Count_FindOne_overwrite [of example_world example_m example_count_query "Some 42"
      "[''id'']"]
    Count_FindOne_overwrite [of example_world example_m_unregistered _ _ _ _ _
      "Some example_count_query"]
    example_registered example_unregistered
  by (auto simp: example_count_query_def count_select_def)

text \<open>The claim as stated fails on the nil map: \<open>Count\<close> panics in
  \<open>query["select"] = ...\<close> and sets nothing.\<close>

theorem Count_nil_map_counterexample:
  "Count example_world example_m None (Some 42) [] = ([], None, Some 42, Inl NilMapWrite)"
  by (simp add: Count_nil_map [OF example_registered])

section \<open>Every run of the transaction coordinator\<close>



lemma tx_loop_append:
  "tx_loop w m tr None (pre @ rest) =
     (case tx_loop w m tr None pre of
        (tr1, Inl p) \<Rightarrow> (tr1, Inl p)
      | (tr1, Inr None) \<Rightarrow> tx_loop w m tr1 None rest
      | (tr1, Inr (Some e)) \<Rightarrow> (tr1, Inr (Some e)))"
proof (induction pre arbitrary: tr)
  case Nil
  show ?case by simp
next
  case (Cons kv pre)
  obtain tr1 res where step: "tx_entry w m tr None kv = (tr1, res)"
    by (cases "tx_entry w m tr None kv")
  show ?case
  proof (cases res)
    case (Inl q)
    with step show ?thesis by simp
  next
    case (Inr e1)
    with step show ?thesis by (cases e1) (simp_all add: Cons.IH)
  qed
qed









lemma DoTransactions_reaches_non_map:
  assumes "dbmap w (dbname m)" and "db_Begin w = None" and "\<not> is_X v"
    and "tx_loop w m [DbBegin None] None pre = (tr1, Inr None)"
  shows "DoTransactions w m (pre @ (key, v) # post) = (tr1, Inl TypeAssertion)"
    and "TxCommit \<notin> set tr1" and "TxRollback \<notin> set tr1"
proof -
  show "DoTransactions w m (pre @ (key, v) # post) = (tr1, Inl TypeAssertion)"
    unfolding DoTransactions_begun [OF assms(1,2)] tx_loop_append assms(4)
    by (simp add: tx_entry_not_X [OF assms(3)])
  from tx_loop_shape [OF assms(4)] obtain body where
    "tr1 = [DbBegin None] @ body" "list_all loop_event body" by auto
  with loop_event_no_end [of body]
  show "TxCommit \<notin> set tr1" and "TxRollback \<notin> set tr1" by simp_all
qed

lemma DoTransactions_not_reached:
  assumes "dbmap w (dbname m)" and "db_Begin w = None"
    and "snd (tx_loop w m [DbBegin None] None pre) \<noteq> Inr None"
  shows "DoTransactions w m (pre @ kv # post) = DoTransactions w m pre"
proof -
  obtain tr1 res where loop: "tx_loop w m [DbBegin None] None pre = (tr1, res)"
    by (cases "tx_loop w m [DbBegin None] None pre")
  with assms(3) have "res \<noteq> Inr None" by simp
  then show ?thesis
    unfolding DoTransactions_begun [OF assms(1,2)] tx_loop_append loop
    by (cases res) (auto split: option.splits)
qed

text \<open>
  Claim C9, as amended.  A batch entry whose tag is none of \<open>insert\<close>, \<open>batchInsert\<close>,
  \<open>update\<close>, \<open>delete\<close> and whose payload is a map is skipped: its round of the loop makes
  no call and leaves \<open>err\<close> as it was, and the whole run is the run of the batch without
  the entry.  An entry whose payload is not a map makes its round panic in \<open>value.(X)\<close>,
  whatever its tag: when the loop reaches the entry (with a registered handle, after a
  successful \<open>Begin\<close>, no earlier entry having failed or panicked), the call panics there
  with neither \<open>Commit\<close> nor \<open>Rollback\<close>; when an earlier entry has ended the loop, the
  run is that of the batch cut before the entry.
\<close>

theorem unrecognised_tag_skipped:
  "(\<not> recognised key \<longrightarrow>
       tx_entry w m tr err (key, VX opt) = (tr, Inr err)
       \<and> entry_statement w m (key, VX opt) = []
       \<and> tx_loop w m tr None (pre @ (key, VX opt) # post) = tx_loop w m tr None (pre @ post)
       \<and> DoTransactions w m (pre @ (key, VX opt) # post) = DoTransactions w m (pre @ post))
   \<and> (\<not> is_X v \<longrightarrow>
       tx_entry w m tr err (key, v) = (tr, Inl TypeAssertion)
       \<and> (dbmap w (dbname m) \<and> db_Begin w = None \<and>
            tx_loop w m [DbBegin None] None pre = (tr1, Inr None) \<longrightarrow>
              DoTransactions w m (pre @ (key, v) # post) = (tr1, Inl TypeAssertion)
              \<and> TxCommit \<notin> set tr1 \<and> TxRollback \<notin> set tr1)
       \<and> (dbmap w (dbname m) \<and> db_Begin w = None \<and>
            snd (tx_loop w m [DbBegin None] None pre) \<noteq> Inr None \<longrightarrow>
              DoTransactions w m (pre @ (key, v) # post) = DoTransactions w m pre))"
proof (intro conjI impI)
  assume k: "\<not> recognised key"
  show "tx_entry w m tr err (key, VX opt) = (tr, Inr err)" by (rule tx_entry_skip [OF k])
  show "entry_statement w m (key, VX opt) = []"
    using k by (simp add: entry_statement_def recognised_def)
  show "tx_loop w m tr None (pre @ (key, VX opt) # post) = tx_loop w m tr None (pre @ post)"
    by (rule tx_loop_skip [OF k])
  show "DoTransactions w m (pre @ (key, VX opt) # post) = DoTransactions w m (pre @ post)"
    by (rule DoTransactions_skip [OF k])
next
  assume v: "\<not> is_X v"
  show "tx_entry w m tr err (key, v) = (tr, Inl TypeAssertion)" by (rule tx_entry_not_X [OF v])
  { assume a: "dbmap w (dbname m) \<and> db_Begin w = None \<and>
            tx_loop w m [DbBegin None] None pre = (tr1, Inr None)"
    then have reg: "dbmap w (dbname m)" and beg: "db_Begin w = None"
      and loop: "tx_loop w m [DbBegin None] None pre = (tr1, Inr None)" by simp_all
    note r = DoTransactions_reaches_non_map [OF reg beg v loop]
    show "DoTransactions w m (pre @ (key, v) # post) = (tr1, Inl TypeAssertion)" by (rule r(1))
    show "TxCommit \<notin> set tr1" by (rule r(2))
    show "TxRollback \<notin> set tr1" by (rule r(3)) }
  { assume a: "dbmap w (dbname m) \<and> db_Begin w = None \<and>
            snd (tx_loop w m [DbBegin None] None pre) \<noteq> Inr None"
    then show "DoTransactions w m (pre @ (key, v) # post) = DoTransactions w m pre"
      by (intro DoTransactions_not_reached) simp_all }
qed

lemma tx_loop_insert_example:
  "tx_loop example_world example_m [DbBegin None] None [example_insert] =
     ([DbBegin None, TxExec ''INSERT INTO yii_log (msg) VALUES (?)'' [VStr ''hi''] None], Inr None)"
  by (simp add: tx_defs build_defs example_world_def example_m_def)

lemma tx_loop_delete_example:
  "tx_loop example_world example_m [DbBegin None] None [example_delete] =
     ([DbBegin None, SqlxIn ''DELETE FROM yii_user WHERE id = ?'' [VInt 42],
       TxExec ''DELETE FROM yii_user WHERE id = ?'' [VInt 42] (Some ''Error 1146'')],
      Inr (Some ''Error 1146''))"
  by (simp add: tx_defs build_defs example_world_def example_m_def)

lemma DoTransactions_delete_example:
  "DoTransactions example_world example_m [example_delete] =
     ([DbBegin None, SqlxIn ''DELETE FROM yii_user WHERE id = ?'' [VInt 42],
       TxExec ''DELETE FROM yii_user WHERE id = ?'' [VInt 42] (Some ''Error 1146''),
       TxRollback, LogError [''[MySQL] DoTransactions Error: '', ''Error 1146'']],
      Inr (Some ''Error 1146''))"
  by (simp add: tx_defs build_defs example_world_def example_m_def)

theorem unrecognised_tag_skipped_witness:
  "\<not> recognised ''noop''
   \<and> tx_entry example_world example_m [DbBegin None] None example_noop = ([DbBegin None], Inr None)
   \<and> DoTransactions example_world example_m [example_insert, example_noop, example_update] =
       DoTransactions example_world example_m [example_insert, example_update]
   \<and> \<not> is_X (VStr ''later'')
   \<and> tx_entry example_world example_m [DbBegin None] None (''insert'', VStr ''later'') =
       ([DbBegin None], Inl TypeAssertion)
   \<and> dbmap example_world (dbname example_m) \<and> db_Begin example_world = None
   \<and> tx_loop example_world example_m [DbBegin None] None [example_insert] =
       ([DbBegin None, TxExec ''INSERT INTO yii_log (msg) VALUES (?)'' [VStr ''hi''] None], Inr None)
   \<and> DoTransactions example_world example_m
         [example_insert, (''noop'', VStr ''later''), example_update] =
       ([DbBegin None, TxExec ''INSERT INTO yii_log (msg) VALUES (?)'' [VStr ''hi''] None],
        Inl TypeAssertion)
   \<and> snd (tx_loop example_world example_m [DbBegin None] None [example_delete]) \<noteq> Inr None
   \<and> DoTransactions example_world example_m [example_delete, (''insert'', VStr ''later'')] =
       ([DbBegin None, SqlxIn ''DELETE FROM yii_user WHERE id = ?'' [VInt 42],
         TxExec ''DELETE FROM yii_user WHERE id = ?'' [VInt 42] (Some ''Error 1146''),
         TxRollback, LogError [''[MySQL] DoTransactions Error: '', ''Error 1146'']],
        Inr (Some ''Error 1146''))"
  using unrecognised_tag_skipped [of "''noop''" example_world example_m "[DbBegin None]" None
      "[(''table'', VStr ''log'')]" "[example_insert]" "[example_update]" "VStr ''later''"
      "[DbBegin None, TxExec ''INSERT INTO yii_log (msg) VALUES (?)'' [VStr ''hi''] None]"]
    unrecognised_tag_skipped [of "''insert''" example_world example_m "[DbBegin None]" None
      "[]" "[example_delete]" "[]" "VStr ''later''" "[]"]
    example_noop_unrecognised example_registered example_begin
    tx_loop_insert_example tx_loop_delete_example DoTransactions_delete_example
  by (simp add: example_noop_def del: tx_loop.simps)

text \<open>The claim as stated fails: an entry with an unknown tag and a string payload ends
  the call in a panic after the insert was executed, with neither \<open>Commit\<close> nor
  \<open>Rollback\<close>.\<close>

theorem unrecognised_tag_counterexample:
  "DoTransactions example_world example_m [example_insert, (''noop'', VStr ''later'')] =
     ([DbBegin None, TxExec ''INSERT INTO yii_log (msg) VALUES (?)'' [VStr ''hi''] None],
      Inl TypeAssertion)"
  by (simp add: tx_defs build_defs example_world_def example_m_def)

end
